theory Spec2Isabelle
  imports Main
begin

section \<open>JavaScript values\<close>

text \<open>
  A thrown value is either an instance of \<open>Error\<close> carrying a message (a \<open>TypeError\<close> is
  one, kept apart because the engine raises it, not the program; its message is the one
  of V8) or some other value. A string is a list of characters, one for each code unit,
  so that \<open>length\<close> is the \<open>length\<close> of the source; the characters are those up to 255.
  \<open>undefined\<close> and \<open>null\<close> are \<open>None\<close>, and \<open>NaN\<close> is \<open>None\<close> where a digit is expected.
  The font size and the offsets are integers. The parameter \<open>text\<close> of the source is
  written \<open>txt\<close>.
\<close>

datatype js_error = Error string | TypeError string | NonError

text \<open>\<open>s[i]\<close> and \<open>xs[i]\<close>: the element at index \<open>i\<close>, \<open>undefined\<close> out of range.\<close>

definition js_at :: "'a list \<Rightarrow> nat \<Rightarrow> 'a option" where
  "js_at s i = (if i < length s then Some (s ! i) else None)"

text \<open>\<open>parseInt\<close> of \<open>s[i]\<close>: a decimal digit gives its value, anything else \<open>NaN\<close>.\<close>

definition parseInt :: "char option \<Rightarrow> nat option" where
  "parseInt c =
     (case c of
        None \<Rightarrow> None
      | Some ch \<Rightarrow>
          (let n = (of_char ch :: nat) in if 48 \<le> n \<and> n \<le> 57 then Some (n - 48) else None))"

text \<open>\<open>arr[d]\<close> for a number \<open>d\<close> that may be \<open>NaN\<close>: \<open>undefined\<close> out of range.\<close>

definition js_index :: "'a list \<Rightarrow> nat option \<Rightarrow> 'a option" where
  "js_index arr d =
     (case d of None \<Rightarrow> None | Some n \<Rightarrow> if n < length arr then Some (arr ! n) else None)"

text \<open>A possibly undefined string placed in a concatenation or a template.\<close>

definition js_str :: "string option \<Rightarrow> string" where
  "js_str v = (case v of None \<Rightarrow> ''undefined'' | Some s \<Rightarrow> s)"

definition js_chr :: "char option \<Rightarrow> string" where
  "js_chr v = (case v of None \<Rightarrow> ''undefined'' | Some c \<Rightarrow> [c])"

text \<open>\<open>s.substring(a, b)\<close> for \<open>a \<le> b\<close>; both ends are clamped to the length.\<close>

definition substring :: "string \<Rightarrow> nat \<Rightarrow> nat \<Rightarrow> string" where
  "substring s a b = take (b - a) (drop a s)"

text \<open>\<open>xs.join(sep)\<close>.\<close>

fun js_join :: "string \<Rightarrow> string list \<Rightarrow> string" where
  "js_join sep [] = []"
| "js_join sep [x] = x"
| "js_join sep (x # y # ys) = x @ sep @ js_join sep (y # ys)"

text \<open>A non-negative integer, and an integer, written in decimal as a template does.\<close>

function show_nat :: "nat \<Rightarrow> string" where
  "show_nat n =
     (if n < 10 then [''0123456789'' ! n]
      else show_nat (n div 10) @ [''0123456789'' ! (n mod 10)])"
  by pat_completeness auto
termination
  by (relation "measure (\<lambda>n. n)") auto

definition show_int :: "int \<Rightarrow> string" where
  "show_int i = (if i < 0 then ''-'' @ show_nat (nat (- i)) else show_nat (nat i))"

section \<open>The process: font cache and observed calls\<close>

text \<open>
  \<open>cachedFontBase64\<close> is the module variable of the route. \<open>calls\<close> is a ghost log of
  the calls the claims speak about, in the order they happen: a read of the font file, a
  call of the barcode library, an entry into the EAN-13 encoder.
\<close>

datatype event = FontRead | LibraryCall | EncoderCall

record proc =
  cachedFontBase64 :: "string option"
  calls :: "event list"

definition fontReads :: "proc \<Rightarrow> nat" where
  "fontReads s = length (filter (\<lambda>e. e = FontRead) (calls s))"

text \<open>
  \<open>getFontBase64\<close>. The file system is the parameter \<open>readFont\<close>: \<open>readFont n\<close> is what
  \<open>fs.readFileSync(fontPath).toString('base64')\<close> gives when \<open>n\<close> reads have been made
  before, \<open>None\<close> when it throws. The cache test is JavaScript truthiness: \<open>null\<close> and
  the empty string are both false.
\<close>

definition getFontBase64 :: "(nat \<Rightarrow> string option) \<Rightarrow> proc \<Rightarrow> string \<times> proc" where
  "getFontBase64 readFont s =
     (if cachedFontBase64 s \<noteq> None \<and> cachedFontBase64 s \<noteq> Some []
      then (the (cachedFontBase64 s), s)
      else
        (let s1 = s\<lparr>calls := calls s @ [FontRead]\<rparr> in
         case readFont (fontReads s) of
           Some b64 \<Rightarrow> (b64, s1\<lparr>cachedFontBase64 := Some b64\<rparr>)
         | None \<Rightarrow> ([], s1)))"

section \<open>EAN-13 tables\<close>

definition EAN13_L_CODES :: "string list" where
  "EAN13_L_CODES =
     [''0001101'', ''0011001'', ''0010011'', ''0111101'', ''0100011'',
      ''0110001'', ''0101111'', ''0111011'', ''0110111'', ''0001011'']"

definition EAN13_G_CODES :: "string list" where
  "EAN13_G_CODES =
     [''0100111'', ''0110011'', ''0011011'', ''0100001'', ''0011101'',
      ''0111001'', ''0000101'', ''0010001'', ''0001001'', ''0010111'']"

definition EAN13_R_CODES :: "string list" where
  "EAN13_R_CODES =
     [''1110010'', ''1100110'', ''1101100'', ''1000010'', ''1011100'',
      ''1001110'', ''1010000'', ''1000100'', ''1001000'', ''1110100'']"

definition EAN13_FIRST_DIGIT_PATTERNS :: "string list" where
  "EAN13_FIRST_DIGIT_PATTERNS =
     [''LLLLLL'', ''LLGLGG'', ''LLGGLG'', ''LLGGGL'', ''LGLLGG'',
      ''LGGLLG'', ''LGGGLL'', ''LGLGLG'', ''LGLGGL'', ''LGGLGL'']"

section \<open>The EAN-13 encoder\<close>

definition SVG_WIDTH :: nat where "SVG_WIDTH = 346"
definition SVG_HEIGHT :: nat where "SVG_HEIGHT = 220"
definition BAR_WIDTH :: nat where "BAR_WIDTH = 3"
definition GUARD_BAR_HEIGHT :: nat where "GUARD_BAR_HEIGHT = 200"
definition DATA_BAR_HEIGHT :: nat where "DATA_BAR_HEIGHT = 165"
definition TEXT_Y :: nat where "TEXT_Y = 185"
definition START_X :: nat where "START_X = 30"

text \<open>
  The loop over the left six digits. Reading \<open>pattern[i]\<close> when \<open>pattern\<close> is
  \<open>undefined\<close> (the leading character is no digit) throws a \<open>TypeError\<close>; a code looked
  up at \<open>NaN\<close> is \<open>undefined\<close> and is appended as the text \<open>undefined\<close>. The digit
  is parsed before the pattern is read, as in the source.
\<close>

function leftLoop :: "string \<Rightarrow> string option \<Rightarrow> nat \<Rightarrow> string \<Rightarrow> js_error + string" where
  "leftLoop txt pattern i barcodeBits =
     (if i < 6 then
        (let digit = parseInt (js_at txt (i + 1)) in
         case pattern of
           None \<Rightarrow>
             Inl (TypeError (''Cannot read properties of undefined (reading '' @ [CHR 0x27] @
                             show_nat i @ [CHR 0x27] @ '')''))
         | Some p \<Rightarrow>
             if js_at p i = Some (CHR ''L'')
             then leftLoop txt pattern (i + 1) (barcodeBits @ js_str (js_index EAN13_L_CODES digit))
             else leftLoop txt pattern (i + 1) (barcodeBits @ js_str (js_index EAN13_G_CODES digit)))
      else Inr barcodeBits)"
  by pat_completeness auto
termination
  by (relation "measure (\<lambda>(txt, pattern, i, barcodeBits). 6 - i)") auto

text \<open>The loop over the right six digits.\<close>

function rightLoop :: "string \<Rightarrow> nat \<Rightarrow> string \<Rightarrow> string" where
  "rightLoop txt i barcodeBits =
     (if i < 6 then
        (let digit = parseInt (js_at txt (i + 7)) in
         rightLoop txt (i + 1) (barcodeBits @ js_str (js_index EAN13_R_CODES digit)))
      else barcodeBits)"
  by pat_completeness auto
termination
  by (relation "measure (\<lambda>(txt, i, barcodeBits). 6 - i)") auto

text \<open>The bit string \<open>barcodeBits\<close> as it stands after the end guard is appended.\<close>

definition encodeBits :: "string \<Rightarrow> js_error + string" where
  "encodeBits txt =
     (let firstDigit = parseInt (js_at txt 0);
          pattern = js_index EAN13_FIRST_DIGIT_PATTERNS firstDigit
      in case leftLoop txt pattern 0 ''101'' of
           Inl e \<Rightarrow> Inl e
         | Inr leftBits \<Rightarrow> Inr (rightLoop txt 0 (leftBits @ ''01010'') @ ''101''))"

text \<open>One path segment, \<open>M${currentX} 0L${currentX} ${barBottom}\<close>.\<close>

definition segment :: "nat \<Rightarrow> nat \<Rightarrow> string" where
  "segment currentX barBottom =
     ''M'' @ show_nat currentX @ '' 0L'' @ show_nat currentX @ '' '' @ show_nat barBottom"

definition isGuard :: "nat \<Rightarrow> bool" where
  "isGuard i = ((0 \<le> i \<and> i \<le> 2) \<or> (42 \<le> i \<and> i \<le> 46) \<or> (92 \<le> i \<and> i \<le> 94))"

text \<open>The loop over the bits that fills \<open>pathSegments\<close>.\<close>

function barLoop :: "string \<Rightarrow> nat \<Rightarrow> nat \<Rightarrow> string list \<Rightarrow> string list" where
  "barLoop barcodeBits i currentX pathSegments =
     (if i < length barcodeBits then
        (if barcodeBits ! i = CHR ''1''
         then
           (let barBottom = (if isGuard i then GUARD_BAR_HEIGHT else DATA_BAR_HEIGHT)
            in barLoop barcodeBits (i + 1) (currentX + BAR_WIDTH)
                 (pathSegments @ [segment currentX barBottom]))
         else barLoop barcodeBits (i + 1) (currentX + BAR_WIDTH) pathSegments)
      else pathSegments)"
  by pat_completeness auto
termination
  by (relation "measure (\<lambda>(barcodeBits, i, currentX, pathSegments). length barcodeBits - i)") auto

definition pathSegments :: "string \<Rightarrow> string list" where
  "pathSegments barcodeBits = barLoop barcodeBits 0 START_X []"

text \<open>The \<open>src\<close> of the font-face rule of the encoder.\<close>

definition fontDataUrl :: "string \<Rightarrow> string" where
  "fontDataUrl fontBase64 =
     (if fontBase64 \<noteq> [] then ''data:font/truetype;charset=utf-8;base64,'' @ fontBase64
      else ''/fonts/ocrb/ocr-b-10-bt.ttf'')"

text \<open>The document, in the pieces of the template literal.\<close>

definition svgHead :: string where
  \<open>svgHead =
     ''<svg width="'' @ show_nat SVG_WIDTH @ ''" height="'' @ show_nat SVG_HEIGHT @
     ''" viewBox="0 0 '' @ show_nat SVG_WIDTH @ '' '' @ show_nat SVG_HEIGHT @
     ''" xmlns="http://www.w3.org/2000/svg">\<newline>'' @
     ''  <defs>\<newline>'' @
     ''    <style type="text/css">\<newline>'' @
     ''      @font-face {\<newline>'' @
     ''        font-family: 'OCR-B';\<newline>''\<close>

definition svgAfterFont :: string where
  \<open>svgAfterFont =
     ''        font-weight: normal;\<newline>'' @
     ''        font-style: normal;\<newline>'' @
     ''      }\<newline>'' @
     ''    </style>\<newline>'' @
     ''  </defs>\<newline>'' @
     ''  <rect width="'' @ show_nat SVG_WIDTH @ ''" height="'' @ show_nat SVG_HEIGHT @
     ''" fill="#FFFFFF"/>\<newline>'' @
     ''  <g id="barcode-bars">\<newline>''\<close>

definition pathOpen :: string where
  \<open>pathOpen = ''    <path stroke="#000000" stroke-width="'' @ show_nat BAR_WIDTH @ ''" d="''\<close>

definition pathClose :: string where
  \<open>pathClose = ''" />\<newline>''\<close>

definition fontFamily :: string where
  \<open>fontFamily = ''font-family="OCR-B, OCRB, 'OCR B', monospace"''\<close>

definition svgLabels :: "string \<Rightarrow> int \<Rightarrow> int \<Rightarrow> int \<Rightarrow> int \<Rightarrow> string" where
  \<open>svgLabels txt fontSize offsetLeft offsetMiddle offsetRight =
     ''  </g>\<newline>'' @
     ''  <g id="first-digit">\<newline>'' @
     ''    <text x="'' @ show_int (int START_X - 16 - 5 + offsetLeft) @
     ''" y="'' @ show_nat (TEXT_Y + 10) @ ''" '' @ fontFamily @
     '' font-size="'' @ show_int (fontSize - 1) @
     ''" text-anchor="start" fill="#000000">'' @ js_chr (js_at txt 0) @ ''</text>\<newline>'' @
     ''  </g>\<newline>'' @
     ''  <g id="left-group">\<newline>'' @
     ''    <text x="'' @ show_int (int START_X + 27 - 17 + offsetMiddle) @
     ''" y="'' @ show_nat (TEXT_Y + 10) @ ''" '' @ fontFamily @
     '' font-size="'' @ show_int fontSize @
     ''" letter-spacing="-0.025em" fill="#000000">'' @ substring txt 1 7 @ ''</text>\<newline>'' @
     ''  </g>\<newline>'' @
     ''  <g id="right-group">\<newline>'' @
     ''    <text x="'' @ show_int (int START_X + 174 - 25 + 3 + offsetRight) @
     ''" y="'' @ show_nat (TEXT_Y + 10) @ ''" '' @ fontFamily @
     '' font-size="'' @ show_int fontSize @
     ''" letter-spacing="-0.025em" fill="#000000">'' @ substring txt 7 13 @ ''</text>\<newline>'' @
     ''  </g>\<newline>'' @
     ''</svg>''\<close>

definition ean13Svg :: "string \<Rightarrow> string list \<Rightarrow> string \<Rightarrow> int \<Rightarrow> int \<Rightarrow> int \<Rightarrow> int \<Rightarrow> string" where
  "ean13Svg txt segs fontBase64 fontSize offsetLeft offsetMiddle offsetRight =
     svgHead @
     ''        src: url('' @ fontDataUrl fontBase64 @ '') format('truetype');\<newline>'' @
     svgAfterFont @
     pathOpen @ js_join '' '' segs @ pathClose @
     svgLabels txt fontSize offsetLeft offsetMiddle offsetRight"

text \<open>A parameter with a default value: \<open>undefined\<close> takes the default.\<close>

definition orDefault :: "int option \<Rightarrow> int \<Rightarrow> int" where
  "orDefault v d = (case v of None \<Rightarrow> d | Some n \<Rightarrow> n)"

text \<open>
  \<open>generateEAN13Barcode\<close>. Its \<open>catch\<close> logs and rethrows, so an error of the body is the
  error of the call.
\<close>

definition generateEAN13Barcode ::
  "(nat \<Rightarrow> string option) \<Rightarrow> string \<Rightarrow> int option \<Rightarrow> int option \<Rightarrow> int option \<Rightarrow> int option \<Rightarrow>
   proc \<Rightarrow> (js_error + string) \<times> proc" where
  "generateEAN13Barcode readFont txt fontSize offsetLeft offsetMiddle offsetRight s =
     (let s0 = s\<lparr>calls := calls s @ [EncoderCall]\<rparr> in
      if length txt \<noteq> 13 then (Inl (Error ''EAN-13 must be 13 digits''), s0)
      else
        (case encodeBits txt of
           Inl e \<Rightarrow> (Inl e, s0)
         | Inr barcodeBits \<Rightarrow>
             (let segs = pathSegments barcodeBits;
                  (fontBase64, s1) = getFontBase64 readFont s0
              in (Inr (ean13Svg txt segs fontBase64 (orDefault fontSize 31)
                         (orDefault offsetLeft 0) (orDefault offsetMiddle 0)
                         (orDefault offsetRight 0)),
                  s1))))"

text \<open>\<open>processEAN13\<close>: the library's document \<open>svg\<close> is not used.\<close>

definition processEAN13 ::
  "(nat \<Rightarrow> string option) \<Rightarrow> string \<Rightarrow> string \<Rightarrow> int option \<Rightarrow> int option \<Rightarrow> int option \<Rightarrow>
   int option \<Rightarrow> proc \<Rightarrow> (js_error + string) \<times> proc" where
  "processEAN13 readFont svg txt fontSize offsetLeft offsetMiddle offsetRight s =
     generateEAN13Barcode readFont txt (Some (orDefault fontSize 31))
       (Some (orDefault offsetLeft 0)) (Some (orDefault offsetMiddle 0))
       (Some (orDefault offsetRight 0)) s"

section \<open>String replacement\<close>

text \<open>
  The replacement text of \<open>String.prototype.replace\<close>: \<open>$$\<close>, \<open>$&\<close>, the text before and
  after the match, and \<open>$n\<close>, \<open>$nn\<close> for the captures; a two-digit reference beyond
  the number of captures is read as a one-digit reference followed by a digit, and a
  reference to no capture stays as it is written.
\<close>

definition digitOf :: "char \<Rightarrow> nat option" where
  "digitOf c = parseInt (Some c)"

definition oneDigitRef :: "string list \<Rightarrow> char \<Rightarrow> nat \<Rightarrow> string" where
  "oneDigitRef caps d n1 =
     (if 1 \<le> n1 \<and> n1 \<le> length caps then caps ! (n1 - 1) else [CHR ''$'', d])"

fun getSubstitution :: "string \<Rightarrow> string \<Rightarrow> string \<Rightarrow> string list \<Rightarrow> string \<Rightarrow> string" where
  "getSubstitution matched before after caps [] = []"
| "getSubstitution matched before after caps [c] = [c]"
| "getSubstitution matched before after caps (c # d # rest) =
     (if c \<noteq> CHR ''$'' then c # getSubstitution matched before after caps (d # rest)
      else if d = CHR ''$'' then CHR ''$'' # getSubstitution matched before after caps rest
      else if d = CHR ''&'' then matched @ getSubstitution matched before after caps rest
      else if d = CHR 0x60 then before @ getSubstitution matched before after caps rest
      else if d = CHR 0x27 then after @ getSubstitution matched before after caps rest
      else
        (case digitOf d of
           None \<Rightarrow> c # getSubstitution matched before after caps (d # rest)
         | Some n1 \<Rightarrow>
             (case rest of
                [] \<Rightarrow> oneDigitRef caps d n1
              | e # rest' \<Rightarrow>
                  (case digitOf e of
                     None \<Rightarrow> oneDigitRef caps d n1 @ getSubstitution matched before after caps rest
                   | Some n2 \<Rightarrow>
                       if 10 * n1 + n2 > length caps
                       then oneDigitRef caps d n1 @ getSubstitution matched before after caps rest
                       else if 1 \<le> 10 * n1 + n2
                       then caps ! (10 * n1 + n2 - 1) @
                            getSubstitution matched before after caps rest'
                       else [CHR ''$'', d, e] @
                            getSubstitution matched before after caps rest'))))"

text \<open>The first occurrence of a fixed text: what stands before it and after it.\<close>

fun findLiteral :: "string \<Rightarrow> string \<Rightarrow> string \<Rightarrow> (string \<times> string) option" where
  "findLiteral pat before [] = (if pat = [] then Some (before, []) else None)"
| "findLiteral pat before (c # cs) =
     (if take (length pat) (c # cs) = pat then Some (before, drop (length pat) (c # cs))
      else findLiteral pat (before @ [c]) cs)"

definition replaceLiteral :: "string \<Rightarrow> string \<Rightarrow> string \<Rightarrow> string" where
  "replaceLiteral pat template s =
     (case findLiteral pat [] s of
        None \<Rightarrow> s
      | Some (before, after) \<Rightarrow> before @ getSubstitution pat before after [] template @ after)"

text \<open>\<open>s.split(' ')\<close>.\<close>

fun splitSpace :: "string \<Rightarrow> string list" where
  "splitSpace [] = [[]]"
| "splitSpace (c # cs) =
     (if c = CHR '' '' then [] # splitSpace cs
      else (case splitSpace cs of [] \<Rightarrow> [[c]] | w # ws \<Rightarrow> (c # w) # ws))"

text \<open>
  \<open>svg.match(/viewBox="([^"]+)"/)\<close>: the capture of the leftmost match, a non-empty run
  of characters other than the double quote, closed by a double quote.
\<close>

fun matchViewBox :: "string \<Rightarrow> string option" where
  "matchViewBox [] = None"
| "matchViewBox (c # cs) =
     (let rest = drop 9 (c # cs);
          run = takeWhile (\<lambda>x. x \<noteq> CHR 0x22) rest
      in if take 9 (c # cs) = ''viewBox='' @ [CHR 0x22] \<and> run \<noteq> [] \<and>
            take 1 (drop (length run) rest) = [CHR 0x22]
         then Some run
         else matchViewBox cs)"

text \<open>
  The leftmost match of \<open>/<svg ([^>]*)>/\<close>: the text before it, the capture and the text
  after it.
\<close>

fun matchSvgOpen :: "string \<Rightarrow> string \<Rightarrow> (string \<times> string \<times> string) option" where
  "matchSvgOpen before [] = None"
| "matchSvgOpen before (c # cs) =
     (let rest = drop 5 (c # cs) in
      if take 5 (c # cs) = ''<svg '' \<and> CHR ''>'' \<in> set rest
      then Some (before, takeWhile (\<lambda>x. x \<noteq> CHR ''>'') rest,
                 drop 1 (dropWhile (\<lambda>x. x \<noteq> CHR ''>'') rest))
      else matchSvgOpen (before @ [c]) cs)"

section \<open>Post-processing of the library's document\<close>

definition addSVGDimensions :: "string \<Rightarrow> string" where
  \<open>addSVGDimensions svg =
     (case matchViewBox svg of
        None \<Rightarrow> svg
      | Some viewBox \<Rightarrow>
          (let viewBoxValues = splitSpace viewBox;
               width = js_at viewBoxValues 2;
               height = js_at viewBoxValues 3
           in replaceLiteral ''<svg ''
                (''<svg width="'' @ js_str width @ ''" height="'' @ js_str height @ ''" '') svg))\<close>

definition fontStyleHead :: string where
  \<open>fontStyleHead =
     ''\<newline>  <defs>\<newline>'' @
     ''    <style type="text/css">\<newline>'' @
     ''      @font-face {\<newline>'' @
     ''        font-family: 'OCR-B';\<newline>''\<close>

definition fontStyleTail :: string where
  \<open>fontStyleTail =
     ''        font-weight: normal;\<newline>'' @
     ''        font-style: normal;\<newline>'' @
     ''      }\<newline>'' @
     ''    </style>\<newline>'' @
     ''  </defs>''\<close>

definition dataFontStyle :: "string \<Rightarrow> string" where
  "dataFontStyle fontBase64 =
     fontStyleHead @
     ''        src: url(data:font/truetype;charset=utf-8;base64,'' @ fontBase64 @
     '') format('truetype');\<newline>'' @
     fontStyleTail"

definition urlFontStyle :: string where
  "urlFontStyle =
     fontStyleHead @
     ''        src: url('/fonts/ocrb/ocr-b-10-bt.ttf') format('truetype');\<newline>'' @
     fontStyleTail"

definition addFontStyle :: "(nat \<Rightarrow> string option) \<Rightarrow> string \<Rightarrow> proc \<Rightarrow> string \<times> proc" where
  "addFontStyle readFont svg s =
     (let (fontBase64, s1) = getFontBase64 readFont s;
          fontStyle = (if fontBase64 \<noteq> [] then dataFontStyle fontBase64 else urlFontStyle)
      in (case matchSvgOpen [] svg of
            None \<Rightarrow> svg
          | Some (before, attrs, after) \<Rightarrow>
              before @
              getSubstitution (''<svg '' @ attrs @ ''>'') before after [attrs]
                (''<svg $1>'' @ fontStyle) @
              after,
          s1))"

text \<open>
  \<open>addCenterText\<close>. The two coordinates are floating-point results; how
  \<open>parseFloat(v) / 2\<close> and \<open>parseFloat(v) - 2\<close> are written for a view box value \<open>v\<close>
  (\<open>undefined\<close> when the view box is short) is left to the parameters \<open>half\<close> and
  \<open>minusTwo\<close>.
\<close>

definition addCenterText ::
  "(string option \<Rightarrow> string) \<Rightarrow> (string option \<Rightarrow> string) \<Rightarrow> string \<Rightarrow> string \<Rightarrow> int option \<Rightarrow> string" where
  \<open>addCenterText half minusTwo svg txt fontSize =
     (case matchViewBox svg of
        None \<Rightarrow> svg
      | Some viewBox \<Rightarrow>
          (let viewBoxValues = splitSpace viewBox;
               textElement =
                 ''\<newline>  <text x="'' @ half (js_at viewBoxValues 2) @
                 ''" y="'' @ minusTwo (js_at viewBoxValues 3) @ ''" '' @ fontFamily @
                 '' font-size="'' @ show_int (orDefault fontSize 16) @
                 ''" text-anchor="middle" fill="#000000">'' @ txt @ ''</text>''
           in replaceLiteral ''</svg>'' (textElement @ ''\<newline></svg>'') svg))\<close>

section \<open>The preview route\<close>

text \<open>Modelled from the spec: the enumeration of symbologies, declared in a module that is not at hand.\<close>

datatype Symbology = ean13 | code128 | code39 | ean8 | upca

fun symbologyName :: "Symbology \<Rightarrow> string" where
  "symbologyName ean13 = ''ean13''"
| "symbologyName code128 = ''code128''"
| "symbologyName code39 = ''code39''"
| "symbologyName ean8 = ''ean8''"
| "symbologyName upca = ''upca''"

record BarcodeRenderRequest =
  contents :: string
  symbology :: Symbology
  quietZone :: "int option"
  fontSize :: "int option"
  offsetLeft :: "int option"
  offsetMiddle :: "int option"
  offsetRight :: "int option"

text \<open>
  What the route takes from outside: the font file, the request schema, the option
  table and the barcode library (each may throw), and the two number formats of
  \<open>addCenterText\<close>.
\<close>

record ('body, 'opts) env =
  readFont :: "nat \<Rightarrow> string option"
  schemaParse :: "'body \<Rightarrow> js_error + BarcodeRenderRequest"
  getBarcodeOptions :: "Symbology \<Rightarrow> int option \<Rightarrow> js_error + 'opts"
  toSVG :: "'opts \<Rightarrow> string \<Rightarrow> js_error + string"
  half :: "string option \<Rightarrow> string"
  minusTwo :: "string option \<Rightarrow> string"

text \<open>
  A response is the document with status 200 and content type \<open>image/svg+xml\<close>, or a
  JSON object \<open>{error: message}\<close> with a status.
\<close>

datatype response = SvgResponse string | JsonError nat string

text \<open>The fixed sentence of the route for a thrown value that is no \<open>Error\<close>, in UTF-8.\<close>

definition fallbackMessage :: string where
  "fallbackMessage = map char_of [0xEB, 0xB0, 0x94, 0xEC, 0xBD, 0x94, 0xEB, 0x93, 0x9C, 0x20, 0xEC, 0x83, 0x9D, 0xEC, 0x84, 0xB1, 0xEC, 0x97, 0x90, 0x20, 0xEC, 0x8B, 0xA4, 0xED, 0x8C, 0xA8, 0xED, 0x96, 0x88, 0xEC, 0x8A, 0xB5, 0xEB, 0x8B, 0x88, 0xEB, 0x8B, 0xA4, 0x2E :: nat]"

fun errorMessage :: "js_error \<Rightarrow> string" where
  "errorMessage (Error m) = m"
| "errorMessage (TypeError m) = m"
| "errorMessage NonError = fallbackMessage"

definition errorResponse :: "js_error \<Rightarrow> response" where
  "errorResponse e = JsonError 400 (errorMessage e)"

text \<open>
  \<open>POST\<close>. \<open>requestJson\<close> is the outcome of \<open>await request.json()\<close>. Every step stands
  inside the one \<open>try\<close>, whose \<open>catch\<close> answers with \<open>errorResponse\<close>.
\<close>

definition POST ::
  "('body, 'opts) env \<Rightarrow> js_error + 'body \<Rightarrow> proc \<Rightarrow> response \<times> proc" where
  "POST en requestJson s =
     (case requestJson of
        Inl e \<Rightarrow> (errorResponse e, s)
      | Inr body \<Rightarrow>
     (case schemaParse en body of
        Inl e \<Rightarrow> (errorResponse e, s)
      | Inr req \<Rightarrow>
     (case getBarcodeOptions en (symbology req) (quietZone req) of
        Inl e \<Rightarrow> (errorResponse e, s)
      | Inr options \<Rightarrow>
     (let s1 = s\<lparr>calls := calls s @ [LibraryCall]\<rparr> in
      case toSVG en options (contents req) of
        Inl e \<Rightarrow> (errorResponse e, s1)
      | Inr svg0 \<Rightarrow>
          (let svg1 = addSVGDimensions svg0;
               (svg2, s2) = addFontStyle (readFont en) svg1 s1
           in if symbology req = ean13
              then
                (case processEAN13 (readFont en) svg2 (contents req) (fontSize req)
                        (offsetLeft req) (offsetMiddle req) (offsetRight req) s2 of
                   (Inl e, s3) \<Rightarrow> (errorResponse e, s3)
                 | (Inr svg, s3) \<Rightarrow> (SvgResponse svg, s3))
              else
                (SvgResponse (addCenterText (half en) (minusTwo en) svg2 (contents req) (fontSize req)),
                 s2))))))"

section \<open>The batch generator\<close>

record BarcodeItem =
  itemId :: string
  itemContents :: string
  itemSymbology :: Symbology
  svgData :: "string option"
  itemError :: "string option"
  isSelected :: bool
  processedContents :: "string option"

definition MAX_BARCODES :: nat where "MAX_BARCODES = 50"

text \<open>The state \<open>barcodes\<close> at the first render.\<close>

definition initialBarcodes :: "BarcodeItem list" where
  "initialBarcodes =
     [\<lparr>itemId = ''1'', itemContents = ''8809560223070'', itemSymbology = ean13,
       svgData = None, itemError = None, isSelected = False, processedContents = None\<rparr>]"

text \<open>\<open>handleAddBarcode\<close>; \<open>now\<close> is the value of \<open>Date.now()\<close> at the call.\<close>

definition handleAddBarcode :: "nat \<Rightarrow> BarcodeItem list \<Rightarrow> BarcodeItem list" where
  "handleAddBarcode now barcodes =
     (if length barcodes \<ge> MAX_BARCODES then barcodes
      else barcodes @
           [\<lparr>itemId = show_nat now, itemContents = [], itemSymbology = ean13,
             svgData = None, itemError = None, isSelected = False, processedContents = None\<rparr>])"

definition handleDeleteBarcode :: "string \<Rightarrow> BarcodeItem list \<Rightarrow> BarcodeItem list" where
  "handleDeleteBarcode i barcodes =
     (if length barcodes \<le> 1 then barcodes
      else filter (\<lambda>b. itemId b \<noteq> i) barcodes)"

text \<open>\<open>handleUpdateBarcode\<close> with the two updates the form makes.\<close>

datatype itemUpdate = UpdateContents string | UpdateSymbology Symbology

fun applyUpdate :: "itemUpdate \<Rightarrow> BarcodeItem \<Rightarrow> BarcodeItem" where
  "applyUpdate (UpdateContents c) b = b\<lparr>itemContents := c\<rparr>"
| "applyUpdate (UpdateSymbology sy) b = b\<lparr>itemSymbology := sy\<rparr>"

definition handleUpdateBarcode :: "string \<Rightarrow> itemUpdate \<Rightarrow> BarcodeItem list \<Rightarrow> BarcodeItem list" where
  "handleUpdateBarcode i u barcodes = map (\<lambda>b. if itemId b = i then applyUpdate u b else b) barcodes"

definition handleToggleSelect :: "string \<Rightarrow> BarcodeItem list \<Rightarrow> BarcodeItem list" where
  "handleToggleSelect i barcodes =
     map (\<lambda>b. if itemId b = i then b\<lparr>isSelected := \<not> isSelected b\<rparr> else b) barcodes"

text \<open>A string option in a condition: \<open>undefined\<close> and the empty string are false.\<close>

definition truthy :: "string option \<Rightarrow> bool" where
  "truthy v = (case v of None \<Rightarrow> False | Some x \<Rightarrow> x \<noteq> [])"

definition handleSelectAll :: "BarcodeItem list \<Rightarrow> BarcodeItem list" where
  "handleSelectAll barcodes =
     (let allSelected = list_all (\<lambda>b. isSelected b \<and> truthy (svgData b)) barcodes
      in map (\<lambda>b. b\<lparr>isSelected := (if truthy (svgData b) then \<not> allSelected else False)\<rparr>) barcodes)"

text \<open>
  The state update at the end of \<open>handleGenerateOne\<close>, for the result of the generation
  of item \<open>i\<close>.
\<close>

definition setGenerated ::
  "string \<Rightarrow> string option \<Rightarrow> string option \<Rightarrow> string option \<Rightarrow> BarcodeItem list \<Rightarrow> BarcodeItem list" where
  "setGenerated i svg err processed barcodes =
     map (\<lambda>b. if itemId b = i
               then b\<lparr>svgData := svg, itemError := err, processedContents := processed\<rparr>
               else b) barcodes"

text \<open>The user's actions on the list.\<close>

datatype action =
    AddBarcode nat
  | DeleteBarcode string
  | UpdateBarcode string itemUpdate
  | ToggleSelect string
  | SelectAll
  | Generated string "string option" "string option" "string option"

fun act :: "action \<Rightarrow> BarcodeItem list \<Rightarrow> BarcodeItem list" where
  "act (AddBarcode now) bs = handleAddBarcode now bs"
| "act (DeleteBarcode i) bs = handleDeleteBarcode i bs"
| "act (UpdateBarcode i u) bs = handleUpdateBarcode i u bs"
| "act (ToggleSelect i) bs = handleToggleSelect i bs"
| "act SelectAll bs = handleSelectAll bs"
| "act (Generated i svg err processed) bs = setGenerated i svg err processed bs"

definition run :: "action list \<Rightarrow> BarcodeItem list" where
  "run as = foldl (\<lambda>bs a. act a bs) initialBarcodes as"

subsection \<open>The archive\<close>

text \<open>White space of \<open>trim\<close> among the characters up to 255.\<close>

definition isWhiteSpace :: "char \<Rightarrow> bool" where
  "isWhiteSpace c = ((of_char c :: nat) \<in> {9, 10, 11, 12, 13, 32, 160})"

text \<open>\<open>b.svgData && b.svgData.trim().length > 0\<close>.\<close>

definition hasSvg :: "BarcodeItem \<Rightarrow> bool" where
  "hasSvg b = (case svgData b of None \<Rightarrow> False | Some d \<Rightarrow> d \<noteq> [] \<and> \<not> list_all isWhiteSpace d)"

definition itemsToDownload :: "bool \<Rightarrow> BarcodeItem list \<Rightarrow> BarcodeItem list" where
  "itemsToDownload selectedOnly barcodes =
     (if selectedOnly then filter (\<lambda>b. isSelected b \<and> hasSvg b) barcodes
      else filter hasSvg barcodes)"

definition baseFilename :: "BarcodeItem \<Rightarrow> string" where
  "baseFilename item =
     symbologyName (itemSymbology item) @ ''_'' @
     (if truthy (processedContents item) then the (processedContents item) else itemContents item)"

text \<open>
  The loop of \<open>handleDownloadZip\<close> over the items: \<open>filenameCount\<close> is the map of the
  source, \<open>added\<close> the calls \<open>zip.file(filename, item.svgData)\<close> in their order.
\<close>

fun zipLoop ::
  "BarcodeItem list \<Rightarrow> (string \<rightharpoonup> nat) \<Rightarrow> (string \<times> string) list \<Rightarrow> (string \<times> string) list" where
  "zipLoop [] filenameCount added = added"
| "zipLoop (item # items) filenameCount added =
     (if hasSvg item then
        (let filename = baseFilename item @ ''.svg'' in
         case filenameCount filename of
           Some n \<Rightarrow>
             (let count = n + 1 in
              zipLoop items (filenameCount(filename \<mapsto> count))
                (added @ [(baseFilename item @ ''_'' @ show_nat count @ ''.svg'', the (svgData item))]))
         | None \<Rightarrow>
             zipLoop items (filenameCount(filename \<mapsto> 0)) (added @ [(filename, the (svgData item))]))
      else zipLoop items filenameCount added)"

definition zipAdded :: "bool \<Rightarrow> BarcodeItem list \<Rightarrow> (string \<times> string) list" where
  "zipAdded selectedOnly barcodes = zipLoop (itemsToDownload selectedOnly barcodes) Map.empty []"

text \<open>The files of the archive: a later \<open>zip.file\<close> under a name replaces an earlier one.\<close>

definition zipFiles :: "(string \<times> string) list \<Rightarrow> (string \<rightharpoonup> string)" where
  "zipFiles added = foldl (\<lambda>files (name, content). files(name \<mapsto> content)) Map.empty added"

section \<open>The bit stream as the specification words it\<close>

text \<open>
  The tables and the bit stream of the specification, written from its words, to be
  compared with the encoder. \<open>isDigit\<close> holds of the ten decimal digits and
  \<open>digitValue\<close> is the position of a digit among them.
\<close>

definition spec_L_codes :: "string list" where
  "spec_L_codes = [''0001101'', ''0011001'', ''0010011'', ''0111101'', ''0100011'',
      ''0110001'', ''0101111'', ''0111011'', ''0110111'', ''0001011'']"

definition spec_G_codes :: "string list" where
  "spec_G_codes = [''0100111'', ''0110011'', ''0011011'', ''0100001'', ''0011101'',
      ''0111001'', ''0000101'', ''0010001'', ''0001001'', ''0010111'']"

definition spec_R_codes :: "string list" where
  "spec_R_codes = [''1110010'', ''1100110'', ''1101100'', ''1000010'', ''1011100'',
      ''1001110'', ''1010000'', ''1000100'', ''1001000'', ''1110100'']"

definition spec_parity :: "string list" where
  "spec_parity = [''LLLLLL'', ''LLGLGG'', ''LLGGLG'', ''LLGGGL'', ''LGLLGG'',
      ''LGGLLG'', ''LGGGLL'', ''LGLGLG'', ''LGLGGL'', ''LGGLGL'']"

definition isDigit :: "char \<Rightarrow> bool" where
  "isDigit c = (c \<in> set ''0123456789'')"

definition digitValue :: "char \<Rightarrow> nat" where
  "digitValue c = length (takeWhile (\<lambda>d. d \<noteq> c) ''0123456789'')"

definition spec_left :: "string \<Rightarrow> nat \<Rightarrow> string" where
  "spec_left txt i =
     (let parity = spec_parity ! digitValue (txt ! 0) ! i in
      if parity = CHR ''L'' then spec_L_codes ! digitValue (txt ! (i + 1))
      else if parity = CHR ''G'' then spec_G_codes ! digitValue (txt ! (i + 1))
      else [])"

definition spec_bits :: "string \<Rightarrow> string" where
  "spec_bits txt =
     ''101'' @ concat (map (spec_left txt) [0..<6]) @ ''01010'' @
     concat (map (\<lambda>k. spec_R_codes ! digitValue (txt ! k)) [7..<13]) @ ''101''"

section \<open>Auxiliary notions and sample inputs\<close>

text \<open>
  The code appended by one round of the left loop and of the right loop, and the path
  segment of the bar at bit index \<open>j\<close>.
\<close>

definition leftCode :: "string \<Rightarrow> string \<Rightarrow> nat \<Rightarrow> string" where
  "leftCode txt p j =
     (if js_at p j = Some (CHR ''L'')
      then js_str (js_index EAN13_L_CODES (parseInt (js_at txt (j + 1))))
      else js_str (js_index EAN13_G_CODES (parseInt (js_at txt (j + 1)))))"

definition rightCode :: "string \<Rightarrow> nat \<Rightarrow> string" where
  "rightCode txt j = js_str (js_index EAN13_R_CODES (parseInt (js_at txt (j + 7))))"

definition barAt :: "nat \<Rightarrow> string" where
  "barAt j = segment (START_X + BAR_WIDTH * j) (if isGuard j then GUARD_BAR_HEIGHT else DATA_BAR_HEIGHT)"

text \<open>The process at its start, and a font file that can never be read.\<close>

definition startState :: proc where
  "startState = \<lparr>cachedFontBase64 = None, calls = []\<rparr>"

definition noFont :: "nat \<Rightarrow> string option" where
  "noFont n = None"

text \<open>A run of \<open>n\<close> calls of \<open>getFontBase64\<close>, one after the other: what they return, and the state left.\<close>

fun fontCalls :: "(nat \<Rightarrow> string option) \<Rightarrow> nat \<Rightarrow> proc \<Rightarrow> string list \<times> proc" where
  "fontCalls rf 0 s = ([], s)"
| "fontCalls rf (Suc n) s =
     (let (r, s1) = getFontBase64 rf s;
          (rs, s2) = fontCalls rf n s1
      in (r # rs, s2))"

text \<open>A font file that cannot be read at the first attempt and can be read afterwards.\<close>

definition lateFont :: "nat \<Rightarrow> string option" where
  "lateFont n = (if n = 0 then None else Some ''AAEAAA=='')"

text \<open>A document as the barcode library writes it, for examples.\<close>

definition sampleLibrarySvg :: string where
  \<open>sampleLibrarySvg =
     ''<svg viewBox="0 0 190 100" xmlns="http://www.w3.org/2000/svg">\<newline>'' @
     ''<path stroke="#000000" stroke-width="2" d="M1 0V100" />\<newline>'' @
     ''</svg>\<newline>''\<close>

text \<open>
  Environments for examples. In \<open>sampleEnv\<close> the body of a request is the parsed request,
  the options are the symbology, and the library draws whatever it is given; in
  \<open>rejectingEnv\<close> the library rejects the contents; in \<open>strictEnv\<close> the schema rejects
  the body.
\<close>

definition sampleEnv :: "(BarcodeRenderRequest, Symbology) env" where
  "sampleEnv =
     \<lparr>readFont = noFont,
      schemaParse = Inr,
      getBarcodeOptions = (\<lambda>sy qz. Inr sy),
      toSVG = (\<lambda>opts t. Inr sampleLibrarySvg),
      half = (\<lambda>v. ''95''),
      minusTwo = (\<lambda>v. ''98'')\<rparr>"

definition rejectingEnv :: "(BarcodeRenderRequest, Symbology) env" where
  "rejectingEnv = sampleEnv\<lparr>toSVG := (\<lambda>opts t. Inl (Error ''bad check digit''))\<rparr>"

definition strictEnv :: "(BarcodeRenderRequest, Symbology) env" where
  "strictEnv = sampleEnv\<lparr>schemaParse := (\<lambda>body. Inl (Error ''invalid request''))\<rparr>"

definition sampleRequest :: "string \<Rightarrow> BarcodeRenderRequest" where
  "sampleRequest c =
     \<lparr>contents = c, symbology = ean13, quietZone = None, fontSize = None,
      offsetLeft = None, offsetMiddle = None, offsetRight = None\<rparr>"

text \<open>
  The state in which the route enters the encoder: the library has been called and
  \<open>addFontStyle\<close> has asked for the font.
\<close>

definition afterLibrary :: "(nat \<Rightarrow> string option) \<Rightarrow> proc \<Rightarrow> proc" where
  "afterLibrary rf s = snd (getFontBase64 rf (s\<lparr>calls := calls s @ [LibraryCall]\<rparr>))"

text \<open>A library that draws an empty document.\<close>

definition emptyLibrary :: "Symbology \<Rightarrow> string \<Rightarrow> js_error + string" where
  "emptyLibrary opts t = Inr ''<svg />''"

text \<open>
  Three generated items of the batch list: two with the contents \<open>A\<close> and one with the
  contents \<open>A_1\<close>, all of symbology code128.
\<close>

definition generatedItem :: "string \<Rightarrow> string \<Rightarrow> string \<Rightarrow> BarcodeItem" where
  "generatedItem i c svg =
     \<lparr>itemId = i, itemContents = c, itemSymbology = code128, svgData = Some svg,
      itemError = None, isSelected = False, processedContents = Some c\<rparr>"

definition collidingItems :: "BarcodeItem list" where
  "collidingItems =
     [generatedItem ''1'' ''A'' ''<svg>1</svg>'',
      generatedItem ''2'' ''A'' ''<svg>2</svg>'',
      generatedItem ''3'' ''A_1'' ''<svg>3</svg>'']"

section \<open>The loops of the encoder\<close>

declare leftLoop.simps [simp del] rightLoop.simps [simp del] barLoop.simps [simp del] show_nat.simps [simp del]

lemma leftLoop_step:
  "i < 6 \<Longrightarrow> leftLoop txt (Some p) i bits = leftLoop txt (Some p) (i + 1) (bits @ leftCode txt p i)"
  by (subst leftLoop.simps) (simp add: leftCode_def Let_def)

lemma leftLoop_stop: "\<not> i < 6 \<Longrightarrow> leftLoop txt pattern i bits = Inr bits"
  by (subst leftLoop.simps) simp

lemma leftLoop_Some:
  "leftLoop txt (Some p) i bits = Inr (bits @ concat (map (leftCode txt p) [i..<6]))"
proof (induction "6 - i" arbitrary: i bits)
  case 0
  then show ?case by (simp add: leftLoop_stop)
next
  case (Suc k)
  then have lt: "i < 6" and k: "k = 6 - (i + 1)" by simp_all
  have up: "[i..<6] = i # [i + 1..<6]" using lt by (simp add: upt_conv_Cons)
  show ?case
    by (simp only: leftLoop_step [OF lt] Suc.hyps(1) [OF k] up) simp
qed

lemma leftLoop_None:
  "leftLoop txt None 0 bits = Inl (TypeError ''Cannot read properties of undefined (reading '0')'')"
  by (subst leftLoop.simps) (simp add: show_nat.simps)

lemma rightLoop_step:
  "i < 6 \<Longrightarrow> rightLoop txt i bits = rightLoop txt (i + 1) (bits @ rightCode txt i)"
  by (subst rightLoop.simps) (simp add: rightCode_def Let_def)

lemma rightLoop_stop: "\<not> i < 6 \<Longrightarrow> rightLoop txt i bits = bits"
  by (subst rightLoop.simps) simp

lemma rightLoop_eq:
  "rightLoop txt i bits = bits @ concat (map (rightCode txt) [i..<6])"
proof (induction "6 - i" arbitrary: i bits)
  case 0
  then show ?case by (simp add: rightLoop_stop)
next
  case (Suc k)
  then have lt: "i < 6" and k: "k = 6 - (i + 1)" by simp_all
  have up: "[i..<6] = i # [i + 1..<6]" using lt by (simp add: upt_conv_Cons)
  show ?case
    by (simp only: rightLoop_step [OF lt] Suc.hyps(1) [OF k] up) simp
qed

lemma barLoop_stop: "\<not> i < length bits \<Longrightarrow> barLoop bits i x segs = segs"
  by (subst barLoop.simps) simp

lemma barLoop_step:
  "i < length bits \<Longrightarrow>
   barLoop bits i (START_X + BAR_WIDTH * i) segs =
   barLoop bits (i + 1) (START_X + BAR_WIDTH * (i + 1))
     (if bits ! i = CHR ''1'' then segs @ [barAt i] else segs)"
  by (subst barLoop.simps) (simp add: barAt_def Let_def ac_simps)

lemma barLoop_eq:
  "barLoop bits i (START_X + BAR_WIDTH * i) segs =
     segs @ map barAt (filter (\<lambda>j. bits ! j = CHR ''1'') [i..<length bits])"
proof (induction "length bits - i" arbitrary: i segs)
  case 0
  then show ?case by (simp add: barLoop_stop)
next
  case (Suc k)
  then have lt: "i < length bits" and k: "k = length bits - (i + 1)" by simp_all
  have up: "[i..<length bits] = i # [i + 1..<length bits]" using lt by (simp add: upt_conv_Cons)
  show ?case
    by (simp only: barLoop_step [OF lt] Suc.hyps(1) [OF k] up) simp
qed

lemma pathSegments_eq:
  "pathSegments bits = map barAt (filter (\<lambda>j. bits ! j = CHR ''1'') [0..<length bits])"
  using barLoop_eq [of bits 0 "[]"] by (simp add: pathSegments_def)

section \<open>The encoder against the specification's bit stream\<close>

lemma isDigit_cases:
  "isDigit c \<Longrightarrow> c = CHR ''0'' \<or> c = CHR ''1'' \<or> c = CHR ''2'' \<or> c = CHR ''3'' \<or> c = CHR ''4'' \<or>
     c = CHR ''5'' \<or> c = CHR ''6'' \<or> c = CHR ''7'' \<or> c = CHR ''8'' \<or> c = CHR ''9''"
  by (simp add: isDigit_def)

lemma parseInt_digit: "isDigit c \<Longrightarrow> parseInt (Some c) = Some (digitValue c) \<and> digitValue c < 10"
  by (drule isDigit_cases, elim disjE) (simp_all add: parseInt_def digitValue_def)

lemma parseInt_at:
  assumes "k < length txt" "\<forall>c\<in>set txt. isDigit c"
  shows "parseInt (js_at txt k) = Some (digitValue (txt ! k))" "digitValue (txt ! k) < 10"
  using assms parseInt_digit [of "txt ! k"] by (simp_all add: js_at_def)

lemma tables_eq:
  "EAN13_L_CODES = spec_L_codes" "EAN13_G_CODES = spec_G_codes" "EAN13_R_CODES = spec_R_codes"
  "EAN13_FIRST_DIGIT_PATTERNS = spec_parity"
  by (simp_all add: EAN13_L_CODES_def EAN13_G_CODES_def EAN13_R_CODES_def EAN13_FIRST_DIGIT_PATTERNS_def
      spec_L_codes_def spec_G_codes_def spec_R_codes_def spec_parity_def)

lemma code_lengths:
  "d < 10 \<Longrightarrow> length (spec_L_codes ! d) = 7"
  "d < 10 \<Longrightarrow> length (spec_G_codes ! d) = 7"
  "d < 10 \<Longrightarrow> length (spec_R_codes ! d) = 7"
proof -
  have L: "\<forall>c\<in>set spec_L_codes. length c = 7" "length spec_L_codes = 10"
    by (simp_all add: spec_L_codes_def)
  have G: "\<forall>c\<in>set spec_G_codes. length c = 7" "length spec_G_codes = 10"
    by (simp_all add: spec_G_codes_def)
  have R: "\<forall>c\<in>set spec_R_codes. length c = 7" "length spec_R_codes = 10"
    by (simp_all add: spec_R_codes_def)
  show "d < 10 \<Longrightarrow> length (spec_L_codes ! d) = 7" using L nth_mem [of d spec_L_codes] by simp
  show "d < 10 \<Longrightarrow> length (spec_G_codes ! d) = 7" using G nth_mem [of d spec_G_codes] by simp
  show "d < 10 \<Longrightarrow> length (spec_R_codes ! d) = 7" using R nth_mem [of d spec_R_codes] by simp
qed

lemma parity_shape:
  assumes "d < 10" "j < 6"
  shows "length (spec_parity ! d) = 6"
    and "spec_parity ! d ! j = CHR ''L'' \<or> spec_parity ! d ! j = CHR ''G''"
proof -
  have P: "\<forall>p\<in>set spec_parity. length p = 6 \<and> set p \<subseteq> {CHR ''L'', CHR ''G''}"
    "length spec_parity = 10"
    by (simp_all add: spec_parity_def)
  have mem: "spec_parity ! d \<in> set spec_parity" using assms(1) P(2) by simp
  show len: "length (spec_parity ! d) = 6" using P(1) mem by simp
  have "spec_parity ! d ! j \<in> set (spec_parity ! d)" using len assms(2) by simp
  then show "spec_parity ! d ! j = CHR ''L'' \<or> spec_parity ! d ! j = CHR ''G''"
    using P(1) mem by blast
qed

lemma js_index_tables:
  assumes "d < 10"
  shows "js_index EAN13_L_CODES (Some d) = Some (spec_L_codes ! d)"
    and "js_index EAN13_G_CODES (Some d) = Some (spec_G_codes ! d)"
    and "js_index EAN13_R_CODES (Some d) = Some (spec_R_codes ! d)"
    and "js_index EAN13_FIRST_DIGIT_PATTERNS (Some d) = Some (spec_parity ! d)"
proof -
  have "length spec_L_codes = 10" "length spec_G_codes = 10" "length spec_R_codes = 10"
    "length spec_parity = 10"
    by (simp_all add: spec_L_codes_def spec_G_codes_def spec_R_codes_def spec_parity_def)
  with assms show "js_index EAN13_L_CODES (Some d) = Some (spec_L_codes ! d)"
    and "js_index EAN13_G_CODES (Some d) = Some (spec_G_codes ! d)"
    and "js_index EAN13_R_CODES (Some d) = Some (spec_R_codes ! d)"
    and "js_index EAN13_FIRST_DIGIT_PATTERNS (Some d) = Some (spec_parity ! d)"
    by (simp_all add: js_index_def tables_eq)
qed

lemma length_concat_const:
  "(\<And>x. x \<in> set xs \<Longrightarrow> length (f x) = k) \<Longrightarrow> length (concat (map f xs)) = k * length xs"
  by (induction xs) simp_all

lemma leftCode_spec:
  assumes len: "length txt = 13" and dig: "\<forall>c\<in>set txt. isDigit c" and j: "j < 6"
  shows "leftCode txt (spec_parity ! digitValue (txt ! 0)) j = spec_left txt j"
    and "length (spec_left txt j) = 7"
proof -
  have d0: "digitValue (txt ! 0) < 10" using parseInt_at(2) [of 0 "txt"] len dig by simp
  have dj: "parseInt (js_at txt (j + 1)) = Some (digitValue (txt ! (j + 1)))" "digitValue (txt ! (j + 1)) < 10"
    using parseInt_at [of "j + 1" "txt"] len dig j by simp_all
  note sh = parity_shape [OF d0 j]
  show "leftCode txt (spec_parity ! digitValue (txt ! 0)) j = spec_left txt j"
    using sh j dj by (auto simp: leftCode_def spec_left_def js_at_def js_index_tables js_str_def Let_def)
  show "length (spec_left txt j) = 7"
    using sh dj(2) by (auto simp: spec_left_def Let_def code_lengths)
qed

lemma rightCode_spec:
  assumes len: "length txt = 13" and dig: "\<forall>c\<in>set txt. isDigit c" and j: "j < 6"
  shows "rightCode txt j = spec_R_codes ! digitValue (txt ! (j + 7))"
    and "length (spec_R_codes ! digitValue (txt ! (j + 7))) = 7"
proof -
  have dj: "parseInt (js_at txt (j + 7)) = Some (digitValue (txt ! (j + 7)))" "digitValue (txt ! (j + 7)) < 10"
    using parseInt_at [of "j + 7" "txt"] len dig j by simp_all
  show "rightCode txt j = spec_R_codes ! digitValue (txt ! (j + 7))"
    using dj by (simp add: rightCode_def js_index_tables js_str_def)
  show "length (spec_R_codes ! digitValue (txt ! (j + 7))) = 7"
    using dj(2) by (simp add: code_lengths)
qed

lemma right_shift: "map (\<lambda>k. f k) [7..<13] = map (\<lambda>j. f (j + 7)) [0..<6]"
proof -
  have "[7..<13] = map (\<lambda>j. j + 7) [0..<6]" by (simp add: upt_rec)
  then show ?thesis by (simp add: comp_def)
qed

lemma encodeBits_spec:
  assumes len: "length txt = 13" and dig: "\<forall>c\<in>set txt. isDigit c"
  shows "encodeBits txt = Inr (spec_bits txt) \<and> length (spec_bits txt) = 95"
proof -
  have d0: "parseInt (js_at txt 0) = Some (digitValue (txt ! 0))" "digitValue (txt ! 0) < 10"
    using parseInt_at [of 0 "txt"] len dig by simp_all
  have pat: "js_index EAN13_FIRST_DIGIT_PATTERNS (parseInt (js_at txt 0)) = Some (spec_parity ! digitValue (txt ! 0))"
    using d0 by (simp add: js_index_tables)
  have left: "map (leftCode txt (spec_parity ! digitValue (txt ! 0))) [0..<6] = map (spec_left txt) [0..<6]"
    by (rule map_cong [OF refl]) (simp add: leftCode_spec(1) [OF len dig])
  have right: "map (rightCode txt) [0..<6] = map (\<lambda>j. spec_R_codes ! digitValue (txt ! (j + 7))) [0..<6]"
    by (rule map_cong [OF refl]) (simp add: rightCode_spec(1) [OF len dig])
  have enc: "encodeBits txt = Inr (spec_bits txt)"
    unfolding spec_bits_def right_shift [of "\<lambda>k. spec_R_codes ! digitValue (txt ! k)"]
    by (simp add: encodeBits_def pat leftLoop_Some rightLoop_eq left right)
  have ll: "length (concat (map (spec_left txt) [0..<6])) = 7 * length [0..<6]"
    by (rule length_concat_const) (simp add: leftCode_spec(2) [OF len dig])
  have lr: "length (concat (map (\<lambda>j. spec_R_codes ! digitValue (txt ! (j + 7))) [0..<6])) = 7 * length [0..<6]"
    by (rule length_concat_const) (simp add: rightCode_spec(2) [OF len dig])
  have "length (spec_bits txt) = 95"
    unfolding spec_bits_def right_shift [of "\<lambda>k. spec_R_codes ! digitValue (txt ! k)"]
    using ll lr by simp
  with enc show ?thesis by simp
qed

lemma digits_set: "list_all isDigit txt \<Longrightarrow> \<forall>c\<in>set txt. isDigit c"
  by (simp add: list_all_iff)

lemma generateEAN13Barcode_Inr:
  assumes "length txt = 13" "encodeBits txt = Inr bits"
  shows "fst (generateEAN13Barcode rf txt fs ol om orr s) =
     Inr (ean13Svg txt (pathSegments bits)
            (fst (getFontBase64 rf (s\<lparr>calls := calls s @ [EncoderCall]\<rparr>)))
            (orDefault fs 31) (orDefault ol 0) (orDefault om 0) (orDefault orr 0))"
  using assms by (simp add: generateEAN13Barcode_def Let_def split: prod.split)

text \<open>
  C1: for every 13-character string of digits the encoder's bit string is the one the
  specification describes: the start guard 101, for the left positions 0 to 5 the L-code
  or the G-code of the digit after them as the parity pattern of the leading digit says,
  the centre guard 01010, the R-codes of the last six digits and the end guard 101; it has
  95 characters, the four tables of the code are the tables of the specification, and
  the document the encoder returns is drawn from this bit string.
\<close>

theorem encodeBits_digits:
  assumes "length txt = 13" and "list_all isDigit txt"
  shows "encodeBits txt = Inr (spec_bits txt) \<and> length (spec_bits txt) = 95 \<and>
         EAN13_L_CODES = spec_L_codes \<and> EAN13_G_CODES = spec_G_codes \<and>
         EAN13_R_CODES = spec_R_codes \<and> EAN13_FIRST_DIGIT_PATTERNS = spec_parity \<and>
         fst (generateEAN13Barcode rf txt fs ol om orr s) =
           Inr (ean13Svg txt (pathSegments (spec_bits txt))
                  (fst (getFontBase64 rf (s\<lparr>calls := calls s @ [EncoderCall]\<rparr>)))
                  (orDefault fs 31) (orDefault ol 0) (orDefault om 0) (orDefault orr 0))"
proof -
  have enc: "encodeBits txt = Inr (spec_bits txt)" and len: "length (spec_bits txt) = 95"
    using encodeBits_spec [OF assms(1) digits_set [OF assms(2)]] by simp_all
  from enc len generateEAN13Barcode_Inr [OF assms(1) enc, of rf fs ol om orr s]
  show ?thesis by (simp only: tables_eq simp_thms)
qed

theorem encodeBits_digits_witness:
  "length ''8809560223070'' = 13 \<and> list_all isDigit ''8809560223070'' \<and>
   encodeBits ''8809560223070'' =
     Inr ''10101101110100111000101101110010000101000110101010110110011011001000010111001010001001110010101''"
proof -
  have h1: "length ''8809560223070'' = 13" by simp
  have h2: "list_all isDigit ''8809560223070''" by (simp add: isDigit_def)
  have v: "spec_bits ''8809560223070'' =
      ''10101101110100111000101101110010000101000110101010110110011011001000010111001010001001110010101''"
    by code_simp
  from encodeBits_digits [OF h1 h2, THEN conjunct1] show ?thesis using h1 h2 v by simp
qed

section \<open>The length check\<close>

lemma encodeBits_cases:
  "encodeBits txt =
     (case js_index EAN13_FIRST_DIGIT_PATTERNS (parseInt (js_at txt 0)) of
        None \<Rightarrow> Inl (TypeError ''Cannot read properties of undefined (reading '0')'')
      | Some p \<Rightarrow> Inr ((''101'' @ concat (map (leftCode txt p) [0..<6]) @ ''01010'') @
                        concat (map (rightCode txt) [0..<6]) @ ''101''))"
  by (simp add: encodeBits_def leftLoop_Some leftLoop_None rightLoop_eq split: option.split)

lemma encodeBits_not_lengthError: "encodeBits txt \<noteq> Inl (Error ''EAN-13 must be 13 digits'')"
  by (simp add: encodeBits_cases split: option.split)

lemma encodeBits_leading_digit:
  assumes "txt \<noteq> []" "isDigit (txt ! 0)"
  shows "\<exists>bits. encodeBits txt = Inr bits"
proof -
  have "parseInt (js_at txt 0) = Some (digitValue (txt ! 0))" "digitValue (txt ! 0) < 10"
    using assms parseInt_digit [of "txt ! 0"] by (simp_all add: js_at_def)
  then show ?thesis by (simp add: encodeBits_cases js_index_tables)
qed

text \<open>
  C3: an input whose length is not 13 makes the encoder throw the length error at once:
  the call returns nothing else and has read no font and built no path. For an input of
  13 characters the length error is never thrown, whatever the characters are, and when
  the leading character is a digit the encoder returns a document although the other
  characters are not examined.
\<close>

theorem generateEAN13Barcode_length_check:
  "(length txt \<noteq> 13 \<longrightarrow>
      generateEAN13Barcode rf txt fs ol om orr s =
        (Inl (Error ''EAN-13 must be 13 digits''), s\<lparr>calls := calls s @ [EncoderCall]\<rparr>)) \<and>
   (length txt = 13 \<longrightarrow>
      fst (generateEAN13Barcode rf txt fs ol om orr s) \<noteq> Inl (Error ''EAN-13 must be 13 digits'')) \<and>
   (length txt = 13 \<and> isDigit (txt ! 0) \<longrightarrow>
      (\<exists>svg. fst (generateEAN13Barcode rf txt fs ol om orr s) = Inr svg))"
proof (intro conjI impI)
  assume "length txt \<noteq> 13"
  then show "generateEAN13Barcode rf txt fs ol om orr s =
        (Inl (Error ''EAN-13 must be 13 digits''), s\<lparr>calls := calls s @ [EncoderCall]\<rparr>)"
    by (simp add: generateEAN13Barcode_def)
next
  assume "length txt = 13"
  then show "fst (generateEAN13Barcode rf txt fs ol om orr s) \<noteq> Inl (Error ''EAN-13 must be 13 digits'')"
    using encodeBits_not_lengthError [of "txt"]
    by (auto simp: generateEAN13Barcode_def Let_def split: sum.split prod.split)
next
  assume a: "length txt = 13 \<and> isDigit (txt ! 0)"
  then have "txt \<noteq> []" by auto
  with a obtain bits where "encodeBits txt = Inr bits"
    using encodeBits_leading_digit [of "txt"] by blast
  with a show "\<exists>svg. fst (generateEAN13Barcode rf txt fs ol om orr s) = Inr svg"
    by (simp add: generateEAN13Barcode_def Let_def split: prod.split)
qed

theorem generateEAN13Barcode_length_check_witness:
  "length ''123'' \<noteq> 13 \<and>
   generateEAN13Barcode noFont ''123'' None None None None startState =
     (Inl (Error ''EAN-13 must be 13 digits''), \<lparr>cachedFontBase64 = None, calls = [EncoderCall]\<rparr>) \<and>
   length ''0a23456789012'' = 13 \<and> isDigit (''0a23456789012'' ! 0) \<and>
   fst (generateEAN13Barcode noFont ''0a23456789012'' None None None None startState)
     \<noteq> Inl (Error ''EAN-13 must be 13 digits'') \<and>
   (\<exists>svg. fst (generateEAN13Barcode noFont ''0a23456789012'' None None None None startState) = Inr svg)"
  using generateEAN13Barcode_length_check [of "''123''" noFont None None None None startState]
    generateEAN13Barcode_length_check [of "''0a23456789012''" noFont None None None None startState]
  by (simp add: isDigit_def startState_def)

section \<open>The bars\<close>

lemma barAt_eq:
  "barAt = (\<lambda>i. segment (30 + 3 * i) (if i \<le> 2 \<or> (42 \<le> i \<and> i \<le> 46) \<or> (92 \<le> i \<and> i \<le> 94) then 200 else 165))"
  by (rule ext) (simp add: barAt_def isGuard_def START_X_def BAR_WIDTH_def GUARD_BAR_HEIGHT_def DATA_BAR_HEIGHT_def)

lemma pathOpen_eq: \<open>pathOpen = ''    <path stroke="#000000" stroke-width="3" d="''\<close>
  by (simp add: pathOpen_def BAR_WIDTH_def show_nat.simps)

text \<open>
  The centre guard stands at the bit indices 45 to 49, after the start guard and the 42
  bits of the left group; the range 42 to 46 that the bar loop draws at guard height
  covers its first two bits and the last three bits of the left group.
\<close>

lemma centre_guard_position:
  assumes "length txt = 13" and "\<forall>c\<in>set txt. isDigit c"
  shows "take 5 (drop 45 (spec_bits txt)) = ''01010''"
proof -
  have "length (concat (map (spec_left txt) [0..<6])) = 7 * length [0..<6]"
    by (rule length_concat_const) (simp add: leftCode_spec(2) [OF assms])
  then show ?thesis by (simp add: spec_bits_def)
qed

text \<open>
  C2, as amended: for every 13-character string of digits the path has one segment for
  each 1 among the 95 bits and none for a 0; the segment of bit index i is the line
  from (30 + 3 i, 0) down to 200 when i is in 0..2, 42..46 or 92..94 and down to 165
  otherwise; the segments, joined by spaces, are the d attribute of the one path of the
  document, whose stroke width is 3.
\<close>

theorem ean13_bars:
  assumes "length txt = 13" and "list_all isDigit txt"
  shows \<open>\<exists>bits.
     encodeBits txt = Inr bits \<and> length bits = 95 \<and>
     pathSegments bits =
       map (\<lambda>i. ''M'' @ show_nat (30 + 3 * i) @ '' 0L'' @ show_nat (30 + 3 * i) @ '' '' @
                 show_nat (if i \<le> 2 \<or> (42 \<le> i \<and> i \<le> 46) \<or> (92 \<le> i \<and> i \<le> 94) then 200 else 165))
           (filter (\<lambda>i. bits ! i = CHR ''1'') [0..<95]) \<and>
     fst (generateEAN13Barcode rf txt fs ol om orr s) =
       Inr (svgHead @ ''        src: url('' @
            fontDataUrl (fst (getFontBase64 rf (s\<lparr>calls := calls s @ [EncoderCall]\<rparr>))) @
            '') format('truetype');\<newline>'' @ svgAfterFont @
            ''    <path stroke="#000000" stroke-width="3" d="'' @
            js_join '' '' (pathSegments bits) @ ''" />\<newline>'' @
            svgLabels txt (orDefault fs 31) (orDefault ol 0) (orDefault om 0) (orDefault orr 0))\<close>
proof -
  note dig = digits_set [OF assms(2)]
  have enc: "encodeBits txt = Inr (spec_bits txt)" and len: "length (spec_bits txt) = 95"
    using encodeBits_spec [OF assms(1) dig] by simp_all
  have segs: "pathSegments (spec_bits txt) =
       map (\<lambda>i. ''M'' @ show_nat (30 + 3 * i) @ '' 0L'' @ show_nat (30 + 3 * i) @ '' '' @
                 show_nat (if i \<le> 2 \<or> (42 \<le> i \<and> i \<le> 46) \<or> (92 \<le> i \<and> i \<le> 94) then 200 else 165))
           (filter (\<lambda>i. spec_bits txt ! i = CHR ''1'') [0..<95])"
    by (simp only: pathSegments_eq len barAt_eq segment_def)
  have svg: \<open>fst (generateEAN13Barcode rf txt fs ol om orr s) =
       Inr (svgHead @ ''        src: url('' @
            fontDataUrl (fst (getFontBase64 rf (s\<lparr>calls := calls s @ [EncoderCall]\<rparr>))) @
            '') format('truetype');\<newline>'' @ svgAfterFont @
            ''    <path stroke="#000000" stroke-width="3" d="'' @
            js_join '' '' (pathSegments (spec_bits txt)) @ ''" />\<newline>'' @
            svgLabels txt (orDefault fs 31) (orDefault ol 0) (orDefault om 0) (orDefault orr 0))\<close>
    by (simp only: generateEAN13Barcode_Inr [OF assms(1) enc] ean13Svg_def pathOpen_eq pathClose_def)
  from enc len segs svg show ?thesis by blast
qed

theorem ean13_bars_witness:
  \<open>length ''8809560223070'' = 13 \<and> list_all isDigit ''8809560223070'' \<and>
   (\<exists>bits. encodeBits ''8809560223070'' = Inr bits \<and> length bits = 95 \<and>
     pathSegments bits =
       map (\<lambda>i. ''M'' @ show_nat (30 + 3 * i) @ '' 0L'' @ show_nat (30 + 3 * i) @ '' '' @
                 show_nat (if i \<le> 2 \<or> (42 \<le> i \<and> i \<le> 46) \<or> (92 \<le> i \<and> i \<le> 94) then 200 else 165))
           (filter (\<lambda>i. bits ! i = CHR ''1'') [0..<95]))\<close>
proof -
  have h1: "length ''8809560223070'' = 13" by simp
  have h2: "list_all isDigit ''8809560223070''" by (simp add: isDigit_def)
  from ean13_bars [OF h1 h2, of noFont None None None None startState] h1 h2
  show ?thesis by blast
qed

text \<open>
  The claim without the restriction to digits fails: with a letter in second place the
  bit string has 97 characters and the last segment belongs to index 96; with a letter
  in first place the encoder throws and draws nothing.
\<close>

theorem ean13_bars_counterexample:
  "length ''0a00000000000'' = 13 \<and>
   encodeBits ''0a00000000000'' =
     Inr ''101undefined0001101000110100011010001101000110101010111001011100101110010111001011100101110010101'' \<and>
   length ''101undefined0001101000110100011010001101000110101010111001011100101110010111001011100101110010101'' = 97 \<and>
   last (pathSegments ''101undefined0001101000110100011010001101000110101010111001011100101110010111001011100101110010101'')
     = ''M318 0L318 165'' \<and>
   length ''a000000000000'' = 13 \<and>
   encodeBits ''a000000000000'' = Inl (TypeError ''Cannot read properties of undefined (reading '0')'')"
  by code_simp

section \<open>The font cache\<close>

lemma getFontBase64_hit:
  "cachedFontBase64 s = Some b \<Longrightarrow> b \<noteq> [] \<Longrightarrow> getFontBase64 rf s = (b, s)"
  by (simp add: getFontBase64_def)

lemma getFontBase64_result:
  assumes "getFontBase64 rf s = (b, s1)" "b \<noteq> []"
  shows "cachedFontBase64 s1 = Some b"
  using assms by (auto simp: getFontBase64_def Let_def split: if_splits option.splits)

lemma fontCalls_hit:
  "cachedFontBase64 s = Some b \<Longrightarrow> b \<noteq> [] \<Longrightarrow> fontCalls rf n s = (replicate n b, s)"
  by (induction n) (simp_all add: getFontBase64_hit)

lemma getFontBase64_miss:
  assumes "cachedFontBase64 s = None \<or> cachedFontBase64 s = Some []" "rf (fontReads s) = None"
  shows "getFontBase64 rf s = ([], s\<lparr>calls := calls s @ [FontRead]\<rparr>)"
  using assms by (auto simp: getFontBase64_def Let_def)

lemma getFontBase64_reads:
  assumes "getFontBase64 rf s = (b, s1)"
  shows "fontReads s1 \<le> fontReads s + 1" and "b \<noteq> [] \<or> fontReads s1 = fontReads s + 1"
  using assms
  by (auto simp: getFontBase64_def fontReads_def Let_def split: if_splits option.splits)

lemma fontCalls_reads:
  "fontReads (snd (fontCalls rf n s)) \<le>
     fontReads s + length (filter (\<lambda>r. r = []) (fst (fontCalls rf n s))) + 1"
proof (induction n arbitrary: s)
  case 0
  show ?case by simp
next
  case (Suc n)
  obtain b s1 where g: "getFontBase64 rf s = (b, s1)" by (cases "getFontBase64 rf s")
  obtain rs s2 where f: "fontCalls rf n s1 = (rs, s2)" by (cases "fontCalls rf n s1")
  have step: "fontCalls rf (Suc n) s = (b # rs, s2)" using g f by simp
  show ?case
  proof (cases "b = []")
    case True
    have "fontReads s2 \<le> fontReads s1 + length (filter (\<lambda>r. r = []) rs) + 1"
      using Suc.IH [of s1] f by simp
    moreover have "fontReads s1 \<le> fontReads s + 1" using g by (rule getFontBase64_reads(1))
    ultimately show ?thesis using True step by simp
  next
    case False
    have c: "cachedFontBase64 s1 = Some b" using g False by (rule getFontBase64_result)
    have "fontCalls rf n s1 = (replicate n b, s1)" using c False by (rule fontCalls_hit)
    with f have "s2 = s1" by simp
    moreover have "fontReads s1 \<le> fontReads s + 1" using g by (rule getFontBase64_reads(1))
    ultimately show ?thesis using step by simp
  qed
qed

text \<open>
  C6, as amended: a call of the font loader reads the file only while no non-empty
  base64 string is cached, and a read that fails caches nothing, so that the next call
  reads again; once a call has returned a non-empty base64 string, every later call
  returns that same string and leaves the state as it is, reading nothing. In a run of
  calls the number of reads is therefore at most one more than the number of calls that
  returned the empty string.
\<close>

theorem font_cache:
  "(getFontBase64 rf s = (b, s1) \<and> b \<noteq> [] \<longrightarrow> fontCalls rf n s1 = (replicate n b, s1)) \<and>
   (cachedFontBase64 s = None \<and> rf (fontReads s) = None \<longrightarrow>
      getFontBase64 rf s = ([], s\<lparr>calls := calls s @ [FontRead]\<rparr>)) \<and>
   fontReads (snd (fontCalls rf n s)) \<le>
     fontReads s + length (filter (\<lambda>r. r = []) (fst (fontCalls rf n s))) + 1"
proof (intro conjI impI)
  assume a: "getFontBase64 rf s = (b, s1) \<and> b \<noteq> []"
  then have "cachedFontBase64 s1 = Some b" using getFontBase64_result by blast
  then show "fontCalls rf n s1 = (replicate n b, s1)" using a fontCalls_hit by blast
next
  assume "cachedFontBase64 s = None \<and> rf (fontReads s) = None"
  then show "getFontBase64 rf s = ([], s\<lparr>calls := calls s @ [FontRead]\<rparr>)"
    by (simp add: getFontBase64_miss)
next
  show "fontReads (snd (fontCalls rf n s)) \<le>
     fontReads s + length (filter (\<lambda>r. r = []) (fst (fontCalls rf n s))) + 1"
    by (rule fontCalls_reads)
qed

theorem font_cache_witness:
  "cachedFontBase64 startState = None \<and> lateFont (fontReads startState) = None \<and>
   getFontBase64 lateFont startState = ([], \<lparr>cachedFontBase64 = None, calls = [FontRead]\<rparr>) \<and>
   getFontBase64 lateFont \<lparr>cachedFontBase64 = None, calls = [FontRead]\<rparr> =
     (''AAEAAA=='', \<lparr>cachedFontBase64 = Some ''AAEAAA=='', calls = [FontRead, FontRead]\<rparr>) \<and>
   ''AAEAAA=='' \<noteq> [] \<and>
   fontCalls lateFont 2 \<lparr>cachedFontBase64 = Some ''AAEAAA=='', calls = [FontRead, FontRead]\<rparr> =
     ([''AAEAAA=='', ''AAEAAA==''], \<lparr>cachedFontBase64 = Some ''AAEAAA=='', calls = [FontRead, FontRead]\<rparr>)"
proof -
  have g: "getFontBase64 lateFont \<lparr>cachedFontBase64 = None, calls = [FontRead]\<rparr> =
     (''AAEAAA=='', \<lparr>cachedFontBase64 = Some ''AAEAAA=='', calls = [FontRead, FontRead]\<rparr>)"
    by (simp add: getFontBase64_def lateFont_def fontReads_def)
  have h: "cachedFontBase64 startState = None \<and> lateFont (fontReads startState) = None"
    by (simp add: startState_def lateFont_def fontReads_def)
  from font_cache [of lateFont "\<lparr>cachedFontBase64 = None, calls = [FontRead]\<rparr>" "''AAEAAA==''"
      "\<lparr>cachedFontBase64 = Some ''AAEAAA=='', calls = [FontRead, FontRead]\<rparr>" 2]
    font_cache [of lateFont startState] g h
  show ?thesis by (simp add: startState_def numeral_2_eq_2)
qed

text \<open>
  The claim as it stands fails when the font file cannot be read: each of two calls
  reads the file, so two reads are made.
\<close>

theorem font_cache_counterexample:
  "fontCalls noFont 2 startState = ([[], []], \<lparr>cachedFontBase64 = None, calls = [FontRead, FontRead]\<rparr>) \<and>
   fontReads \<lparr>cachedFontBase64 = None, calls = [FontRead, FontRead]\<rparr> = 2"
  by (simp add: numeral_2_eq_2 getFontBase64_def noFont_def startState_def fontReads_def)

section \<open>The font rule when the font cannot be read\<close>

lemma getSubstitution_plain:
  "CHR ''$'' \<notin> set t \<Longrightarrow> getSubstitution m b a caps t = t"
  by (induction m b a caps t rule: getSubstitution.induct) auto

lemma getSubstitution_svg1:
  assumes "CHR ''$'' \<notin> set t"
  shows "getSubstitution m b a [attrs] (''<svg $1>'' @ t) = ''<svg '' @ attrs @ ''>'' @ t"
proof (cases t)
  case Nil
  then show ?thesis by (simp add: digitOf_def parseInt_def oneDigitRef_def)
next
  case (Cons x xs)
  then have "getSubstitution m b a [attrs] (x # xs) = x # xs"
    using assms getSubstitution_plain by metis
  then show ?thesis
    using Cons by (simp add: digitOf_def parseInt_def oneDigitRef_def)
qed

lemma urlFontStyle_plain: "CHR ''$'' \<notin> set urlFontStyle"
  by (simp add: urlFontStyle_def fontStyleHead_def fontStyleTail_def)

lemma addFontStyle_no_font:
  assumes "cachedFontBase64 s = None" "rf (fontReads s) = None"
  shows "addFontStyle rf svg s =
     (case matchSvgOpen [] svg of
        None \<Rightarrow> svg
      | Some (before, attrs, after) \<Rightarrow> before @ ''<svg '' @ attrs @ ''>'' @ urlFontStyle @ after,
      s\<lparr>calls := calls s @ [FontRead]\<rparr>)"
proof -
  have g: "getFontBase64 rf s = ([], s\<lparr>calls := calls s @ [FontRead]\<rparr>)"
    using assms by (simp add: getFontBase64_miss)
  note sub = getSubstitution_svg1 [OF urlFontStyle_plain]
  have "addFontStyle rf svg s =
     (case matchSvgOpen [] svg of
        None \<Rightarrow> svg
      | Some (before, attrs, after) \<Rightarrow>
          before @ getSubstitution (''<svg '' @ attrs @ ''>'') before after [attrs]
            (''<svg $1>'' @ urlFontStyle) @ after,
      s\<lparr>calls := calls s @ [FontRead]\<rparr>)"
    by (simp only: addFontStyle_def g Let_def prod.case simp_thms if_False)
  then show ?thesis by (simp only: sub append_assoc)
qed

lemma generateEAN13Barcode_no_font:
  assumes "length txt = 13" "encodeBits txt = Inr bits"
    and "cachedFontBase64 s = None" "rf (fontReads s) = None"
  shows "fst (generateEAN13Barcode rf txt fs ol om orr s) =
     Inr (svgHead @
          ''        src: url(/fonts/ocrb/ocr-b-10-bt.ttf) format('truetype');\<newline>'' @
          svgAfterFont @ pathOpen @ js_join '' '' (pathSegments bits) @ pathClose @
          svgLabels txt (orDefault fs 31) (orDefault ol 0) (orDefault om 0) (orDefault orr 0))"
proof -
  have "getFontBase64 rf (s\<lparr>calls := calls s @ [EncoderCall]\<rparr>) =
      ([], s\<lparr>calls := calls s @ [EncoderCall, FontRead]\<rparr>)"
    using assms(3,4) getFontBase64_miss [of "s\<lparr>calls := calls s @ [EncoderCall]\<rparr>" rf]
    by (simp add: fontReads_def)
  then show ?thesis
    using generateEAN13Barcode_Inr [OF assms(1,2), of rf fs ol om orr s]
    by (simp add: ean13Svg_def fontDataUrl_def)
qed


lemma generateEAN13Barcode_isl:
  "isl (fst (generateEAN13Barcode rf txt fs ol om orr s)) = (length txt \<noteq> 13 \<or> isl (encodeBits txt))"
  by (simp add: generateEAN13Barcode_def Let_def split: sum.split prod.split)

text \<open>
  C7: when nothing is cached and the read of the font file fails, the loader returns
  the empty string and throws nothing; the encoder then writes the font-face rule with
  the source /fonts/ocrb/ocr-b-10-bt.ttf, and whether it fails depends on the length
  and the bit stream only; the font-style injection puts the font-face rule with that
  same source after the opening tag of the library's document.
\<close>

theorem font_failure_fallback:
  assumes "cachedFontBase64 s = None" and "rf (fontReads s) = None"
  shows \<open>getFontBase64 rf s = ([], s\<lparr>calls := calls s @ [FontRead]\<rparr>) \<and>
    (length txt = 13 \<and> list_all isDigit txt \<longrightarrow>
       fst (generateEAN13Barcode rf txt fs ol om orr s) =
         Inr (svgHead @
              ''        src: url(/fonts/ocrb/ocr-b-10-bt.ttf) format('truetype');\<newline>'' @
              svgAfterFont @ pathOpen @ js_join '' '' (pathSegments (spec_bits txt)) @ pathClose @
              svgLabels txt (orDefault fs 31) (orDefault ol 0) (orDefault om 0) (orDefault orr 0))) \<and>
    isl (fst (generateEAN13Barcode rf txt fs ol om orr s)) = (length txt \<noteq> 13 \<or> isl (encodeBits txt)) \<and>
    fst (addFontStyle rf svg s) =
      (case matchSvgOpen [] svg of
         None \<Rightarrow> svg
       | Some (before, attrs, after) \<Rightarrow>
           before @ ''<svg '' @ attrs @ ''>'' @ fontStyleHead @
           ''        src: url('/fonts/ocrb/ocr-b-10-bt.ttf') format('truetype');\<newline>'' @
           fontStyleTail @ after)\<close>
proof (intro conjI impI)
  show "getFontBase64 rf s = ([], s\<lparr>calls := calls s @ [FontRead]\<rparr>)"
    using assms by (simp add: getFontBase64_miss)
next
  assume a: "length txt = 13 \<and> list_all isDigit txt"
  then have enc: "encodeBits txt = Inr (spec_bits txt)"
    using encodeBits_spec [of "txt"] digits_set [of "txt"] by simp
  from a have len: "length txt = 13" by simp
  show "fst (generateEAN13Barcode rf txt fs ol om orr s) =
         Inr (svgHead @
              ''        src: url(/fonts/ocrb/ocr-b-10-bt.ttf) format('truetype');\<newline>'' @
              svgAfterFont @ pathOpen @ js_join '' '' (pathSegments (spec_bits txt)) @ pathClose @
              svgLabels txt (orDefault fs 31) (orDefault ol 0) (orDefault om 0) (orDefault orr 0))"
    by (rule generateEAN13Barcode_no_font [of "txt" "spec_bits txt" s rf, OF len enc assms])
next
  show "isl (fst (generateEAN13Barcode rf txt fs ol om orr s)) = (length txt \<noteq> 13 \<or> isl (encodeBits txt))"
    by (rule generateEAN13Barcode_isl)
next
  show \<open>fst (addFontStyle rf svg s) =
      (case matchSvgOpen [] svg of
         None \<Rightarrow> svg
       | Some (before, attrs, after) \<Rightarrow>
           before @ ''<svg '' @ attrs @ ''>'' @ fontStyleHead @
           ''        src: url('/fonts/ocrb/ocr-b-10-bt.ttf') format('truetype');\<newline>'' @
           fontStyleTail @ after)\<close>
    by (simp only: addFontStyle_no_font [of s rf, OF assms] urlFontStyle_def fst_conv append_assoc)
qed

lemma sample_match:
  \<open>matchSvgOpen [] sampleLibrarySvg =
     Some ([], ''viewBox="0 0 190 100" xmlns="http://www.w3.org/2000/svg"'',
           ''\<newline><path stroke="#000000" stroke-width="2" d="M1 0V100" />\<newline></svg>\<newline>'')\<close>
  by code_simp

theorem font_failure_fallback_witness:
  \<open>cachedFontBase64 startState = None \<and> noFont (fontReads startState) = None \<and>
   length ''8809560223070'' = 13 \<and> list_all isDigit ''8809560223070'' \<and>
   getFontBase64 noFont startState = ([], \<lparr>cachedFontBase64 = None, calls = [FontRead]\<rparr>) \<and>
   \<not> isl (fst (generateEAN13Barcode noFont ''8809560223070'' None None None None startState)) \<and>
   fst (addFontStyle noFont sampleLibrarySvg startState) =
     ''<svg viewBox="0 0 190 100" xmlns="http://www.w3.org/2000/svg">'' @ fontStyleHead @
     ''        src: url('/fonts/ocrb/ocr-b-10-bt.ttf') format('truetype');\<newline>'' @
     fontStyleTail @
     ''\<newline><path stroke="#000000" stroke-width="2" d="M1 0V100" />\<newline></svg>\<newline>''\<close>
proof -
  have h1: "cachedFontBase64 startState = None" by (simp add: startState_def)
  have h2: "noFont (fontReads startState) = None" by (simp add: noFont_def)
  have h3: "length ''8809560223070'' = 13 \<and> list_all isDigit ''8809560223070''"
    by (simp add: isDigit_def)
  from font_failure_fallback [of startState noFont "''8809560223070''" None None None None
      sampleLibrarySvg, OF h1 h2]
    h1 h2 h3
  show ?thesis by (simp add: sample_match startState_def)
qed

section \<open>The answers of the preview route\<close>

lemma orDefault_Some: "orDefault (Some x) d = x"
  by (simp add: orDefault_def)

lemma processEAN13_eq:
  "processEAN13 rf svg t fs ol om orr s = generateEAN13Barcode rf t fs ol om orr s"
  by (simp add: processEAN13_def generateEAN13Barcode_def orDefault_Some Let_def
      split: sum.split prod.split)

lemma addFontStyle_state: "snd (addFontStyle rf svg s) = snd (getFontBase64 rf s)"
  by (simp add: addFontStyle_def Let_def split: prod.split)

lemma POST_ean13:
  assumes "schemaParse en body = Inr req" "symbology req = ean13"
    and "getBarcodeOptions en ean13 (quietZone req) = Inr opts"
    and "toSVG en opts (contents req) = Inr svg0"
  shows "POST en (Inr body) s =
     (case generateEAN13Barcode (readFont en) (contents req) (fontSize req) (offsetLeft req)
             (offsetMiddle req) (offsetRight req) (afterLibrary (readFont en) s) of
        (Inl e, s3) \<Rightarrow> (errorResponse e, s3)
      | (Inr svg, s3) \<Rightarrow> (SvgResponse svg, s3))"
proof -
  obtain svg2 s2 where a: "addFontStyle (readFont en) (addSVGDimensions svg0)
      (s\<lparr>calls := calls s @ [LibraryCall]\<rparr>) = (svg2, s2)"
    by (cases "addFontStyle (readFont en) (addSVGDimensions svg0) (s\<lparr>calls := calls s @ [LibraryCall]\<rparr>)")
  then have "s2 = afterLibrary (readFont en) s"
    using addFontStyle_state [of "readFont en" "addSVGDimensions svg0" "s\<lparr>calls := calls s @ [LibraryCall]\<rparr>"]
    by (simp add: afterLibrary_def)
  with a assms show ?thesis
    by (simp add: POST_def Let_def processEAN13_eq)
qed

lemma POST_library_error:
  assumes "schemaParse en body = Inr req"
    and "getBarcodeOptions en (symbology req) (quietZone req) = Inr opts"
    and "toSVG en opts (contents req) = Inl e"
  shows "POST en (Inr body) s = (JsonError 400 (errorMessage e), s\<lparr>calls := calls s @ [LibraryCall]\<rparr>)"
  using assms by (simp add: POST_def Let_def errorResponse_def)

lemma POST_total:
  "(\<exists>svg. fst (POST en rq s) = SvgResponse svg) \<or> (\<exists>m. fst (POST en rq s) = JsonError 400 m)"
  by (auto simp: POST_def Let_def errorResponse_def split: sum.split prod.split)


lemma POST_steps:
  assumes "fst (POST en (Inr body) s) = SvgResponse out" and "schemaParse en body = Inr req"
  shows "\<exists>opts svg0. getBarcodeOptions en (symbology req) (quietZone req) = Inr opts \<and>
           toSVG en opts (contents req) = Inr svg0"
  using assms
  by (auto simp: POST_def Let_def errorResponse_def split: sum.splits)

lemma getFontBase64_calls: "\<exists>xs. calls (snd (getFontBase64 rf s)) = calls s @ xs"
  by (simp add: getFontBase64_def Let_def split: option.split)

lemma generateEAN13Barcode_calls:
  "\<exists>ys. calls (snd (generateEAN13Barcode rf t fs ol om orr s)) = calls s @ EncoderCall # ys"
proof -
  obtain xs where "calls (snd (getFontBase64 rf (s\<lparr>calls := calls s @ [EncoderCall]\<rparr>))) =
      calls (s\<lparr>calls := calls s @ [EncoderCall]\<rparr>) @ xs"
    using getFontBase64_calls by blast
  then show ?thesis
    by (auto simp: generateEAN13Barcode_def Let_def split: sum.split prod.split)
qed

lemma POST_ean13_response:
  assumes "schemaParse en body = Inr req" "symbology req = ean13"
    and "getBarcodeOptions en ean13 (quietZone req) = Inr opts"
    and "toSVG en opts (contents req) = Inr svg0"
    and "fst (generateEAN13Barcode (readFont en) (contents req) (fontSize req) (offsetLeft req)
             (offsetMiddle req) (offsetRight req) (afterLibrary (readFont en) s)) = Inr out"
  shows "fst (POST en (Inr body) s) = SvgResponse out"
  using assms(5) unfolding POST_ean13 [OF assms(1-4), of s]
  by (auto split: prod.splits sum.splits)

lemma sample_bits:
  "encodeBits ''8809560223070'' =
     Inr ''10101101110100111000101101110010000101000110101010110110011011001000010111001010001001110010101''"
  by code_simp

lemma sample_encoder:
  "fst (generateEAN13Barcode noFont ''8809560223070'' None None None None
          (afterLibrary noFont startState)) =
        Inr (ean13Svg ''8809560223070''
       (pathSegments ''10101101110100111000101101110010000101000110101010110110011011001000010111001010001001110010101'')
       [] 31 0 0 0)"
proof -
  have l: "length ''8809560223070'' = 13" by simp
  have f: "fst (getFontBase64 noFont ((afterLibrary noFont startState)
      \<lparr>calls := calls (afterLibrary noFont startState) @ [EncoderCall]\<rparr>)) = []"
    by (simp add: afterLibrary_def getFontBase64_def noFont_def startState_def)
  have d: "orDefault None 31 = 31" "orDefault None 0 = 0" by (simp_all add: orDefault_def)
  show ?thesis
    by (simp only: generateEAN13Barcode_Inr [OF l sample_bits] f d)
qed

lemma sample_POST:
  "fst (POST sampleEnv (Inr (sampleRequest ''8809560223070'')) startState) =
     SvgResponse (ean13Svg ''8809560223070''
       (pathSegments ''10101101110100111000101101110010000101000110101010110110011011001000010111001010001001110010101'')
       [] 31 0 0 0)"
proof -
  have e: "schemaParse sampleEnv (sampleRequest ''8809560223070'') = Inr (sampleRequest ''8809560223070'')"
    "symbology (sampleRequest ''8809560223070'') = ean13"
    "getBarcodeOptions sampleEnv ean13 (quietZone (sampleRequest ''8809560223070'')) = Inr ean13"
    "toSVG sampleEnv ean13 (contents (sampleRequest ''8809560223070'')) = Inr sampleLibrarySvg"
    by (simp_all add: sampleEnv_def sampleRequest_def)
  have r: "readFont sampleEnv = noFont" "contents (sampleRequest ''8809560223070'') = ''8809560223070''"
    "fontSize (sampleRequest ''8809560223070'') = None" "offsetLeft (sampleRequest ''8809560223070'') = None"
    "offsetMiddle (sampleRequest ''8809560223070'') = None" "offsetRight (sampleRequest ''8809560223070'') = None"
    by (simp_all add: sampleEnv_def sampleRequest_def)
  show ?thesis
    by (rule POST_ean13_response [OF e]) (simp only: r sample_encoder)
qed

text \<open>
  C4: when a request with symbology ean13 is answered with a document, the body of the
  response is what the encoder returns for the contents, the font size and the three
  offsets of the request, in the state in which the route enters it; and the document of
  the library takes no part in it: with any other library that also returns a document
  for these contents, the route behaves the same.
\<close>

theorem POST_ean13_body:
  assumes "schemaParse en body = Inr req" and "symbology req = ean13"
    and "fst (POST en (Inr body) s) = SvgResponse out"
  shows "fst (generateEAN13Barcode (readFont en) (contents req) (fontSize req) (offsetLeft req)
            (offsetMiddle req) (offsetRight req) (afterLibrary (readFont en) s)) = Inr out \<and>
         (getBarcodeOptions en ean13 (quietZone req) = Inr opts \<and> f opts (contents req) = Inr svg'
            \<longrightarrow> POST (en\<lparr>toSVG := f\<rparr>) (Inr body) s = POST en (Inr body) s)"
proof (intro conjI impI)
  obtain opts0 svg0 where o: "getBarcodeOptions en ean13 (quietZone req) = Inr opts0"
    and l: "toSVG en opts0 (contents req) = Inr svg0"
    using POST_steps [OF assms(3,1)] assms(2) by auto
  note p = POST_ean13 [OF assms(1,2) o l, of s]
  show "fst (generateEAN13Barcode (readFont en) (contents req) (fontSize req) (offsetLeft req)
            (offsetMiddle req) (offsetRight req) (afterLibrary (readFont en) s)) = Inr out"
    using assms(3) unfolding p
    by (auto simp: errorResponse_def split: prod.splits sum.splits)
  assume a: "getBarcodeOptions en ean13 (quietZone req) = Inr opts \<and> f opts (contents req) = Inr svg'"
  with o have same: "opts = opts0" by simp
  have "POST (en\<lparr>toSVG := f\<rparr>) (Inr body) s =
     (case generateEAN13Barcode (readFont en) (contents req) (fontSize req) (offsetLeft req)
             (offsetMiddle req) (offsetRight req) (afterLibrary (readFont en) s) of
        (Inl e, s3) \<Rightarrow> (errorResponse e, s3)
      | (Inr svg, s3) \<Rightarrow> (SvgResponse svg, s3))"
    using POST_ean13 [of "en\<lparr>toSVG := f\<rparr>" body req opts svg' s] assms(1,2) a by simp
  then show "POST (en\<lparr>toSVG := f\<rparr>) (Inr body) s = POST en (Inr body) s"
    by (simp only: p)
qed

theorem POST_ean13_body_witness:
  "schemaParse sampleEnv (sampleRequest ''8809560223070'') = Inr (sampleRequest ''8809560223070'') \<and>
   symbology (sampleRequest ''8809560223070'') = ean13 \<and>
   fst (POST sampleEnv (Inr (sampleRequest ''8809560223070'')) startState) =
     SvgResponse (ean13Svg ''8809560223070''
       (pathSegments ''10101101110100111000101101110010000101000110101010110110011011001000010111001010001001110010101'')
       [] 31 0 0 0) \<and>
   fst (generateEAN13Barcode (readFont sampleEnv) (contents (sampleRequest ''8809560223070''))
          (fontSize (sampleRequest ''8809560223070'')) (offsetLeft (sampleRequest ''8809560223070''))
          (offsetMiddle (sampleRequest ''8809560223070'')) (offsetRight (sampleRequest ''8809560223070''))
          (afterLibrary (readFont sampleEnv) startState)) =
     Inr (ean13Svg ''8809560223070''
       (pathSegments ''10101101110100111000101101110010000101000110101010110110011011001000010111001010001001110010101'')
       [] 31 0 0 0) \<and>
   getBarcodeOptions sampleEnv ean13 (quietZone (sampleRequest ''8809560223070'')) = Inr ean13 \<and>
   emptyLibrary ean13 (contents (sampleRequest ''8809560223070'')) = Inr ''<svg />'' \<and>
   POST (sampleEnv\<lparr>toSVG := emptyLibrary\<rparr>) (Inr (sampleRequest ''8809560223070'')) startState =
     POST sampleEnv (Inr (sampleRequest ''8809560223070'')) startState"
proof -
  have h1: "schemaParse sampleEnv (sampleRequest ''8809560223070'') = Inr (sampleRequest ''8809560223070'')"
    by (simp add: sampleEnv_def)
  have h2: "symbology (sampleRequest ''8809560223070'') = ean13"
    by (simp add: sampleRequest_def)
  have h4: "getBarcodeOptions sampleEnv ean13 (quietZone (sampleRequest ''8809560223070'')) = Inr ean13"
    by (simp add: sampleEnv_def)
  have h5: "emptyLibrary ean13 (contents (sampleRequest ''8809560223070'')) = Inr ''<svg />''"
    by (simp add: emptyLibrary_def)
  from POST_ean13_body [OF h1 h2 sample_POST, of ean13 emptyLibrary "''<svg />''"]
    h1 h2 h4 h5 sample_POST
  show ?thesis by blast
qed

text \<open>
  C5: a request whose body is no JSON, or is rejected by the schema, or whose options
  or library call throw, or on which the encoder throws, is answered with the JSON
  object of the error's message and status 400, never with a document; and the route
  always returns: its answer is a document or such an error object with status 400.
\<close>

theorem POST_failures:
  "(POST en (Inl e) s = (JsonError 400 (errorMessage e), s)) \<and>
   (schemaParse en body = Inl e \<longrightarrow> POST en (Inr body) s = (JsonError 400 (errorMessage e), s)) \<and>
   (schemaParse en body = Inr req \<and>
    getBarcodeOptions en (symbology req) (quietZone req) = Inl e \<longrightarrow>
      POST en (Inr body) s = (JsonError 400 (errorMessage e), s)) \<and>
   (schemaParse en body = Inr req \<and>
    getBarcodeOptions en (symbology req) (quietZone req) = Inr opts \<and>
    toSVG en opts (contents req) = Inl e \<longrightarrow>
      fst (POST en (Inr body) s) = JsonError 400 (errorMessage e)) \<and>
   (schemaParse en body = Inr req \<and> symbology req = ean13 \<and>
    getBarcodeOptions en ean13 (quietZone req) = Inr opts \<and>
    toSVG en opts (contents req) = Inr svg0 \<and>
    fst (generateEAN13Barcode (readFont en) (contents req) (fontSize req) (offsetLeft req)
           (offsetMiddle req) (offsetRight req) (afterLibrary (readFont en) s)) = Inl e \<longrightarrow>
      fst (POST en (Inr body) s) = JsonError 400 (errorMessage e)) \<and>
   ((\<exists>svg. fst (POST en rq s) = SvgResponse svg) \<or> (\<exists>m. fst (POST en rq s) = JsonError 400 m))"
proof (intro conjI impI)
  show "POST en (Inl e) s = (JsonError 400 (errorMessage e), s)"
    by (simp add: POST_def errorResponse_def)
next
  assume "schemaParse en body = Inl e"
  then show "POST en (Inr body) s = (JsonError 400 (errorMessage e), s)"
    by (simp add: POST_def errorResponse_def)
next
  assume "schemaParse en body = Inr req \<and> getBarcodeOptions en (symbology req) (quietZone req) = Inl e"
  then show "POST en (Inr body) s = (JsonError 400 (errorMessage e), s)"
    by (simp add: POST_def errorResponse_def)
next
  assume "schemaParse en body = Inr req \<and>
    getBarcodeOptions en (symbology req) (quietZone req) = Inr opts \<and>
    toSVG en opts (contents req) = Inl e"
  then show "fst (POST en (Inr body) s) = JsonError 400 (errorMessage e)"
    by (simp add: POST_library_error)
next
  assume a: "schemaParse en body = Inr req \<and> symbology req = ean13 \<and>
    getBarcodeOptions en ean13 (quietZone req) = Inr opts \<and>
    toSVG en opts (contents req) = Inr svg0 \<and>
    fst (generateEAN13Barcode (readFont en) (contents req) (fontSize req) (offsetLeft req)
           (offsetMiddle req) (offsetRight req) (afterLibrary (readFont en) s)) = Inl e"
  then have "POST en (Inr body) s =
     (case generateEAN13Barcode (readFont en) (contents req) (fontSize req) (offsetLeft req)
             (offsetMiddle req) (offsetRight req) (afterLibrary (readFont en) s) of
        (Inl e, s3) \<Rightarrow> (errorResponse e, s3)
      | (Inr svg, s3) \<Rightarrow> (SvgResponse svg, s3))"
    using POST_ean13 [of en body req opts svg0 s] by simp
  with a show "fst (POST en (Inr body) s) = JsonError 400 (errorMessage e)"
    by (auto simp: errorResponse_def split: prod.splits sum.splits)
next
  show "(\<exists>svg. fst (POST en rq s) = SvgResponse svg) \<or> (\<exists>m. fst (POST en rq s) = JsonError 400 m)"
    by (rule POST_total)
qed

theorem POST_failures_witness:
  "POST sampleEnv (Inl (Error ''Unexpected end of JSON input'')) startState =
     (JsonError 400 ''Unexpected end of JSON input'', startState) \<and>
   schemaParse strictEnv (sampleRequest ''8809560223070'') = Inl (Error ''invalid request'') \<and>
   POST strictEnv (Inr (sampleRequest ''8809560223070'')) startState =
     (JsonError 400 ''invalid request'', startState) \<and>
   schemaParse rejectingEnv (sampleRequest ''8809560223071'') = Inr (sampleRequest ''8809560223071'') \<and>
   getBarcodeOptions rejectingEnv (symbology (sampleRequest ''8809560223071''))
     (quietZone (sampleRequest ''8809560223071'')) = Inr ean13 \<and>
   toSVG rejectingEnv ean13 (contents (sampleRequest ''8809560223071'')) = Inl (Error ''bad check digit'') \<and>
   fst (POST rejectingEnv (Inr (sampleRequest ''8809560223071'')) startState) =
     JsonError 400 ''bad check digit'' \<and>
   schemaParse sampleEnv (sampleRequest ''880956022307'') = Inr (sampleRequest ''880956022307'') \<and>
   symbology (sampleRequest ''880956022307'') = ean13 \<and>
   toSVG sampleEnv ean13 (contents (sampleRequest ''880956022307'')) = Inr sampleLibrarySvg \<and>
   fst (generateEAN13Barcode (readFont sampleEnv) (contents (sampleRequest ''880956022307''))
          (fontSize (sampleRequest ''880956022307'')) (offsetLeft (sampleRequest ''880956022307''))
          (offsetMiddle (sampleRequest ''880956022307'')) (offsetRight (sampleRequest ''880956022307''))
          (afterLibrary (readFont sampleEnv) startState)) = Inl (Error ''EAN-13 must be 13 digits'') \<and>
   fst (POST sampleEnv (Inr (sampleRequest ''880956022307'')) startState) =
     JsonError 400 ''EAN-13 must be 13 digits''"
proof -
  have a: "schemaParse strictEnv (sampleRequest ''8809560223070'') = Inl (Error ''invalid request'')"
    by (simp add: strictEnv_def sampleEnv_def)
  have b: "schemaParse rejectingEnv (sampleRequest ''8809560223071'') = Inr (sampleRequest ''8809560223071'') \<and>
      getBarcodeOptions rejectingEnv (symbology (sampleRequest ''8809560223071''))
        (quietZone (sampleRequest ''8809560223071'')) = Inr ean13 \<and>
      toSVG rejectingEnv ean13 (contents (sampleRequest ''8809560223071'')) = Inl (Error ''bad check digit'')"
    by (simp add: rejectingEnv_def sampleEnv_def sampleRequest_def)
  have c: "schemaParse sampleEnv (sampleRequest ''880956022307'') = Inr (sampleRequest ''880956022307'') \<and>
      symbology (sampleRequest ''880956022307'') = ean13 \<and>
      getBarcodeOptions sampleEnv ean13 (quietZone (sampleRequest ''880956022307'')) = Inr ean13 \<and>
      toSVG sampleEnv ean13 (contents (sampleRequest ''880956022307'')) = Inr sampleLibrarySvg \<and>
      fst (generateEAN13Barcode (readFont sampleEnv) (contents (sampleRequest ''880956022307''))
          (fontSize (sampleRequest ''880956022307'')) (offsetLeft (sampleRequest ''880956022307''))
          (offsetMiddle (sampleRequest ''880956022307'')) (offsetRight (sampleRequest ''880956022307''))
          (afterLibrary (readFont sampleEnv) startState)) = Inl (Error ''EAN-13 must be 13 digits'')"
    by (simp add: sampleEnv_def sampleRequest_def generateEAN13Barcode_def)
  note t1 = POST_failures [of sampleEnv "Error ''Unexpected end of JSON input''" startState]
  note t2 = POST_failures [of strictEnv "Error ''invalid request''" startState "sampleRequest ''8809560223070''"]
  note t3 = POST_failures [of rejectingEnv "Error ''bad check digit''" startState
      "sampleRequest ''8809560223071''" "sampleRequest ''8809560223071''" ean13]
  note t4 = POST_failures [of sampleEnv "Error ''EAN-13 must be 13 digits''" startState
      "sampleRequest ''880956022307''" "sampleRequest ''880956022307''" ean13 sampleLibrarySvg]
  have r1: "POST sampleEnv (Inl (Error ''Unexpected end of JSON input'')) startState =
     (JsonError 400 ''Unexpected end of JSON input'', startState)"
    using t1 by simp
  have r2: "POST strictEnv (Inr (sampleRequest ''8809560223070'')) startState =
     (JsonError 400 ''invalid request'', startState)"
    using t2 a by simp
  have r3: "fst (POST rejectingEnv (Inr (sampleRequest ''8809560223071'')) startState) =
     JsonError 400 ''bad check digit''"
    using t3 b by simp
  have r4: "fst (POST sampleEnv (Inr (sampleRequest ''880956022307'')) startState) =
     JsonError 400 ''EAN-13 must be 13 digits''"
    using t4 c by simp
  from r1 r2 r3 r4 a b c show ?thesis by simp
qed

text \<open>
  C9: for a request with symbology ean13 the first call the route makes is the call of
  the library, before any entry into the encoder; when the library throws, the answer is
  the error object with status 400 and the encoder is not entered, also for contents
  that the encoder by itself accepts.
\<close>

theorem POST_library_first:
  assumes "schemaParse en body = Inr req" and "symbology req = ean13"
    and "getBarcodeOptions en ean13 (quietZone req) = Inr opts"
  shows "(\<exists>rest. calls (snd (POST en (Inr body) s)) = calls s @ LibraryCall # rest) \<and>
         (toSVG en opts (contents req) = Inl e \<longrightarrow>
            POST en (Inr body) s =
              (JsonError 400 (errorMessage e), s\<lparr>calls := calls s @ [LibraryCall]\<rparr>) \<and>
            EncoderCall \<notin> set (drop (length (calls s)) (calls (snd (POST en (Inr body) s)))))"
proof (intro conjI impI)
  show "\<exists>rest. calls (snd (POST en (Inr body) s)) = calls s @ LibraryCall # rest"
  proof (cases "toSVG en opts (contents req)")
    case (Inl e')
    then show ?thesis
      using POST_library_error [of en body req opts e' s] assms by simp
  next
    case (Inr svg0)
    obtain xs where x: "calls (afterLibrary (readFont en) s) = (calls s @ [LibraryCall]) @ xs"
      using getFontBase64_calls [of "readFont en" "s\<lparr>calls := calls s @ [LibraryCall]\<rparr>"]
      by (auto simp: afterLibrary_def)
    obtain ys where y: "calls (snd (generateEAN13Barcode (readFont en) (contents req) (fontSize req)
        (offsetLeft req) (offsetMiddle req) (offsetRight req) (afterLibrary (readFont en) s))) =
        calls (afterLibrary (readFont en) s) @ EncoderCall # ys"
      using generateEAN13Barcode_calls by blast
    have "snd (POST en (Inr body) s) =
        snd (generateEAN13Barcode (readFont en) (contents req) (fontSize req)
          (offsetLeft req) (offsetMiddle req) (offsetRight req) (afterLibrary (readFont en) s))"
      unfolding POST_ean13 [OF assms Inr, of s] by (simp split: prod.split sum.split)
    then show ?thesis using x y by simp
  qed
next
  assume l: "toSVG en opts (contents req) = Inl e"
  then show p: "POST en (Inr body) s =
      (JsonError 400 (errorMessage e), s\<lparr>calls := calls s @ [LibraryCall]\<rparr>)"
    using POST_library_error [of en body req opts e s] assms by simp
  show "EncoderCall \<notin> set (drop (length (calls s)) (calls (snd (POST en (Inr body) s))))"
    unfolding p by simp
qed

theorem POST_library_first_witness:
  "schemaParse rejectingEnv (sampleRequest ''8809560223071'') = Inr (sampleRequest ''8809560223071'') \<and>
   symbology (sampleRequest ''8809560223071'') = ean13 \<and>
   getBarcodeOptions rejectingEnv ean13 (quietZone (sampleRequest ''8809560223071'')) = Inr ean13 \<and>
   toSVG rejectingEnv ean13 (contents (sampleRequest ''8809560223071'')) = Inl (Error ''bad check digit'') \<and>
   POST rejectingEnv (Inr (sampleRequest ''8809560223071'')) startState =
     (JsonError 400 ''bad check digit'', \<lparr>cachedFontBase64 = None, calls = [LibraryCall]\<rparr>) \<and>
   \<not> isl (fst (generateEAN13Barcode noFont ''8809560223071'' None None None None startState))"
proof -
  have h1: "schemaParse rejectingEnv (sampleRequest ''8809560223071'') = Inr (sampleRequest ''8809560223071'')"
    by (simp add: rejectingEnv_def sampleEnv_def)
  have h2: "symbology (sampleRequest ''8809560223071'') = ean13"
    by (simp add: sampleRequest_def)
  have h3: "getBarcodeOptions rejectingEnv ean13 (quietZone (sampleRequest ''8809560223071'')) = Inr ean13"
    by (simp add: rejectingEnv_def sampleEnv_def)
  have h4: "toSVG rejectingEnv ean13 (contents (sampleRequest ''8809560223071'')) = Inl (Error ''bad check digit'')"
    by (simp add: rejectingEnv_def sampleEnv_def)
  have "\<not> isl (encodeBits ''8809560223071'')" by code_simp
  then have enc: "\<not> isl (fst (generateEAN13Barcode noFont ''8809560223071'' None None None None startState))"
    by (simp add: generateEAN13Barcode_isl)
  from POST_library_first [OF h1 h2 h3, where e = "Error ''bad check digit''" and s = startState]
    h1 h2 h3 h4 enc
  show ?thesis by (simp add: startState_def)
qed

section \<open>The archive of the batch generator\<close>

text \<open>
  Items that share one base name are numbered as intended: the first keeps the base
  name and the k-th further one gets the suffix k.
\<close>

lemma zipLoop_counted:
  assumes "\<forall>it\<in>set items. hasSvg it \<and> baseFilename it = b" and "fc (b @ ''.svg'') = Some c"
  shows "map fst (zipLoop items fc added) =
     map fst added @ map (\<lambda>k. b @ ''_'' @ show_nat k @ ''.svg'') [c + 1..<c + 1 + length items]"
  using assms
proof (induction items arbitrary: fc c added)
  case Nil
  then show ?case by simp
next
  case (Cons it items)
  have up: "[c + 1..<c + 1 + length (it # items)] = (c + 1) # [c + 1 + 1..<c + 1 + 1 + length items]"
    using upt_conv_Cons [of "c + 1" "c + 1 + length (it # items)"] by simp
  have "map fst (zipLoop items (fc(b @ ''.svg'' \<mapsto> c + 1))
          (added @ [(b @ ''_'' @ show_nat (c + 1) @ ''.svg'', the (svgData it))])) =
        map fst (added @ [(b @ ''_'' @ show_nat (c + 1) @ ''.svg'', the (svgData it))]) @
        map (\<lambda>k. b @ ''_'' @ show_nat k @ ''.svg'') [c + 1 + 1..<c + 1 + 1 + length items]"
    using Cons.prems by (intro Cons.IH) simp_all
  then show ?case
    using Cons.prems by (simp only: up) (simp add: Let_def)
qed

lemma zipLoop_numbering:
  assumes "\<forall>it\<in>set (item # items). hasSvg it \<and> baseFilename it = b"
  shows "map fst (zipLoop (item # items) Map.empty []) =
     (b @ ''.svg'') # map (\<lambda>k. b @ ''_'' @ show_nat k @ ''.svg'') [1..<1 + length items]"
proof -
  have "map fst (zipLoop items (Map.empty(b @ ''.svg'' \<mapsto> 0)) [(b @ ''.svg'', the (svgData item))]) =
      map fst [(b @ ''.svg'', the (svgData item))] @
      map (\<lambda>k. b @ ''_'' @ show_nat k @ ''.svg'') [0 + 1..<0 + 1 + length items]"
    using assms by (intro zipLoop_counted) simp_all
  then show ?thesis using assms by (simp add: Let_def)
qed

lemma zip_added_value:
  "zipAdded False collidingItems =
     [(''code128_A.svg'', ''<svg>1</svg>''), (''code128_A_1.svg'', ''<svg>2</svg>''),
      (''code128_A_1.svg'', ''<svg>3</svg>'')]"
  by (simp add: zipAdded_def itemsToDownload_def collidingItems_def generatedItem_def hasSvg_def
      isWhiteSpace_def baseFilename_def truthy_def show_nat.simps)

text \<open>
  C8: every item with a document should enter the archive under a name of its own. The
  loop does not achieve this when a numbered name meets the base name of another item:
  of two items with the contents A and one with the contents A_1, the second and the
  third are both added as code128_A_1.svg, and the archive holds two files, the
  document of the second item being replaced by that of the third.
\<close>

theorem zip_names_collide:
  "list_all hasSvg collidingItems \<and>
   map fst (zipAdded False collidingItems) =
     [''code128_A.svg'', ''code128_A_1.svg'', ''code128_A_1.svg''] \<and>
   \<not> distinct (map fst (zipAdded False collidingItems)) \<and>
   dom (zipFiles (zipAdded False collidingItems)) = {''code128_A.svg'', ''code128_A_1.svg''} \<and>
   zipFiles (zipAdded False collidingItems) ''code128_A.svg'' = Some ''<svg>1</svg>'' \<and>
   zipFiles (zipAdded False collidingItems) ''code128_A_1.svg'' = Some ''<svg>3</svg>''"
proof -
  have "list_all hasSvg collidingItems"
    by (simp add: collidingItems_def generatedItem_def hasSvg_def isWhiteSpace_def)
  then show ?thesis
    unfolding zip_added_value by (auto simp: zipFiles_def)
qed

section \<open>The length of the batch list\<close>

text \<open>
  No action makes the list longer than 50 items; adding at 50 items and deleting at one
  item leave the list as it is; and deleting keeps at least one item as long as the
  items have different identifiers.
\<close>

lemma act_length_upper: "length bs \<le> MAX_BARCODES \<Longrightarrow> length (act a bs) \<le> MAX_BARCODES"
proof (cases a)
  case (DeleteBarcode i)
  assume le: "length bs \<le> MAX_BARCODES"
  have "length (filter (\<lambda>b. itemId b \<noteq> i) bs) \<le> length bs" by (rule length_filter_le)
  then have "length (filter (\<lambda>b. itemId b \<noteq> i) bs) \<le> MAX_BARCODES" using le by (rule le_trans)
  then show "length (act a bs) \<le> MAX_BARCODES"
    using DeleteBarcode le by (simp add: handleDeleteBarcode_def)
qed (simp_all add: handleAddBarcode_def handleUpdateBarcode_def handleToggleSelect_def
    handleSelectAll_def setGenerated_def Let_def)

lemma foldl_act_upper:
  "length bs \<le> MAX_BARCODES \<Longrightarrow> length (foldl (\<lambda>bs a. act a bs) bs as) \<le> MAX_BARCODES"
  by (induction as arbitrary: bs) (simp_all add: act_length_upper)

lemma run_length_upper: "length (run as) \<le> 50"
  using foldl_act_upper [of initialBarcodes as]
  by (simp add: run_def initialBarcodes_def MAX_BARCODES_def)

lemma handleAddBarcode_refused:
  "length bs = 50 \<Longrightarrow> handleAddBarcode now bs = bs"
  by (simp add: handleAddBarcode_def MAX_BARCODES_def)

lemma handleDeleteBarcode_refused:
  "length bs = 1 \<Longrightarrow> handleDeleteBarcode i bs = bs"
  by (simp add: handleDeleteBarcode_def)

lemma filter_distinct_ids:
  "distinct (map itemId bs) \<Longrightarrow> length bs \<le> length (filter (\<lambda>b. itemId b \<noteq> i) bs) + 1"
proof (induction bs)
  case Nil
  show ?case by simp
next
  case (Cons b bs)
  show ?case
  proof (cases "itemId b = i")
    case True
    have "itemId b \<notin> set (map itemId bs)" using Cons.prems by simp
    then have "\<forall>x\<in>set bs. itemId x \<noteq> i" using True by (metis image_eqI list.set_map)
    then have "filter (\<lambda>b. itemId b \<noteq> i) bs = bs" by (simp add: filter_id_conv)
    with True show ?thesis by simp
  next
    case False
    with Cons show ?thesis by simp
  qed
qed

lemma handleDeleteBarcode_distinct:
  assumes "distinct (map itemId bs)" and "1 \<le> length bs"
  shows "1 \<le> length (handleDeleteBarcode i bs)"
  using assms filter_distinct_ids [of bs i] by (auto simp: handleDeleteBarcode_def)

text \<open>
  C10: the list should always hold between 1 and 50 items. Deleting removes every item
  that has the given identifier, and the identifier of an added item is the time in
  milliseconds, so two items added within one millisecond share it: after two such
  additions, deleting the first item and then the shared identifier leaves the list
  empty.
\<close>

theorem barcodes_can_become_empty:
  "run [AddBarcode 1762156800000, AddBarcode 1762156800000, DeleteBarcode ''1'',
        DeleteBarcode ''1762156800000''] = [] \<and>
   length (run [AddBarcode 1762156800000, AddBarcode 1762156800000, DeleteBarcode ''1'',
        DeleteBarcode ''1762156800000'']) = 0"
  by (simp add: run_def initialBarcodes_def handleAddBarcode_def handleDeleteBarcode_def
      MAX_BARCODES_def show_nat.simps)

end
